theory Spec2Isabelle
  imports Complex_Main "HOL-Library.Char_ord" "HOL-Library.List_Lexorder"
begin

section \<open>The clothing dataset and its conversion to the darknet label format\<close>

text \<open>
  The development follows the Python of \<^verbatim>\<open>manuscript/10.object-detection-with-YOLO-v5.md\<close>:
  the cell that collects the list \<^verbatim>\<open>categories\<close> and the function
  \<^verbatim>\<open>create_dataset\<close>.

  Conventions of the embedding.
  \<^item> A coordinate is a Python float, modelled by its value, a \<^typ>\<open>real\<close>. (A JSON
    number without a decimal point is read by Python as an integer, which it prints
    without one; the model does not tell such a number from the float of the same value.)
  \<^item> Python's floating-point arithmetic and its printing of a float are the two fields
    of a parameter of type \<open>float_model\<close>: \<open>fl_round\<close> maps the exact result of an
    operation to the float that the operation returns, and \<open>fl_repr\<close> maps a float to
    the text an f-string prints for it. Nothing is assumed about either unless a theorem
    says so; \<open>binary64_rounding\<close> below states what rounding to the nearest double
    satisfies, and the identity is exact arithmetic.
  \<^item> The three calls that obtain the picture (\<^verbatim>\<open>urlopen\<close>, \<^verbatim>\<open>Image.open\<close>,
    \<^verbatim>\<open>convert\<close>) are one parameter \<open>urlopen\<close> from the locator to the bytes that
    \<^verbatim>\<open>img.save\<close> writes; \<open>None\<close> stands for any of the three raising.
  \<^item> An exception is a value: every function that can raise returns an
    \<open>error option\<close> next to the state it leaves behind. The exceptions modelled are
    those of the fetch, of \<^verbatim>\<open>categories.index\<close> and of the unpacking of the points;
    a failing file system (a full disk, a missing permission) is not modelled.
\<close>

subsection \<open>Data\<close>

record point =
  pt_x :: real
  pt_y :: real

record annotation =
  imageHeight :: nat
  imageWidth :: nat
  label :: "string list"
  annotation_notes :: string
  points :: "point list"

record row =
  annotation :: "annotation list"
  content :: string

datatype error = URLError | ValueError

record filesys =
  dirs :: "string set"
  files :: "string \<rightharpoonup> string"

record float_model =
  fl_round :: "real \<Rightarrow> real"
  fl_repr :: "real \<Rightarrow> string"

subsection \<open>The list of categories\<close>

text \<open>
  \<^verbatim>\<open>
  categories = []
  for c in clothing:
    for a in c['annotation']:
      categories.extend(a['label'])
  categories = list(set(categories))
  categories.sort()
  \<close>
  The two loops are \<open>collect_labels\<close>. The order in which \<^verbatim>\<open>list(set(...))\<close> lists a
  set of strings is not fixed by Python (it changes with the hash seed of the run), so it is
  the parameter \<open>set_order\<close>; \<open>set_iteration\<close> says what every such order satisfies.
  Strings are compared as Python compares them: character by character, a proper prefix
  first. (A \<^typ>\<open>string\<close> is a list of bytes; for UTF-8 the order of the bytes is the
  order of the code points that Python compares.)
\<close>

fun extend_labels :: "string list \<Rightarrow> annotation list \<Rightarrow> string list" where
  "extend_labels acc [] = acc"
| "extend_labels acc (a # as) = extend_labels (acc @ label a) as"

fun collect_labels :: "string list \<Rightarrow> row list \<Rightarrow> string list" where
  "collect_labels acc [] = acc"
| "collect_labels acc (c # cs) = collect_labels (extend_labels acc (annotation c)) cs"

definition set_iteration :: "(string list \<Rightarrow> string list) \<Rightarrow> bool" where
  "set_iteration set_order =
     (\<forall>xs. distinct (set_order xs) \<and> set (set_order xs) = set xs)"

definition build_categories :: "(string list \<Rightarrow> string list) \<Rightarrow> row list \<Rightarrow> string list" where
  "build_categories set_order clothing = sort (set_order (collect_labels [] clothing))"

text \<open>\<^verbatim>\<open>categories.index(label)\<close>: the first position of the label, or ValueError (\<open>None\<close>).\<close>

fun index :: "string list \<Rightarrow> string \<Rightarrow> nat option" where
  "index [] v = None"
| "index (u # us) v = (if u = v then Some 0 else map_option Suc (index us v))"

subsection \<open>One label row\<close>

text \<open>
  Python's \<^verbatim>\<open>str\<close> of a non-negative integer (the category index and the image
  identifier inside the f-strings): its decimal digits.
\<close>

definition digit_char :: "nat \<Rightarrow> char" where
  "digit_char d = ''0123456789'' ! d"

fun str_nat :: "nat \<Rightarrow> string" where
  "str_nat n = (if n < 10 then [digit_char n] else str_nat (n div 10) @ [digit_char (n mod 10)])"

declare str_nat.simps [simp del]

text \<open>
  The body of the innermost loop computes five values and writes them as one row,
  \<^verbatim>\<open>class_index bbox_x_center bbox_y_center bbox_width bbox_height\<close>:
  \<^verbatim>\<open>
  x1, y1 = p1['x'], p1['y']
  x2, y2 = p2['x'], p2['y']
  bbox_width = x2 - x1
  bbox_height = y2 - y1
  label_file.write(
    f"{category_idx} {x1 + bbox_width / 2} {y1 + bbox_height / 2} {bbox_width} {bbox_height}\n"
  )
  \<close>
  \<open>make_bbox\<close> is the five values, each operation followed by its rounding, and
  \<open>format_bbox\<close> the f-string.
\<close>

record bbox =
  class_index :: nat
  bbox_x_center :: real
  bbox_y_center :: real
  bbox_width :: real
  bbox_height :: real

definition make_bbox :: "float_model \<Rightarrow> nat \<Rightarrow> point \<Rightarrow> point \<Rightarrow> bbox" where
  "make_bbox fm category_idx p1 p2 =
     (let x1 = pt_x p1; y1 = pt_y p1;
          x2 = pt_x p2; y2 = pt_y p2;
          w = fl_round fm (x2 - x1);
          h = fl_round fm (y2 - y1)
      in \<lparr>class_index = category_idx,
          bbox_x_center = fl_round fm (x1 + fl_round fm (w / 2)),
          bbox_y_center = fl_round fm (y1 + fl_round fm (h / 2)),
          bbox_width = w, bbox_height = h\<rparr>)"

definition newline :: char where
  "newline = CHR 0x0A"

definition format_bbox :: "float_model \<Rightarrow> bbox \<Rightarrow> string" where
  "format_bbox fm b =
     str_nat (class_index b) @ '' '' @ fl_repr fm (bbox_x_center b) @ '' '' @
     fl_repr fm (bbox_y_center b) @ '' '' @ fl_repr fm (bbox_width b) @ '' '' @
     fl_repr fm (bbox_height b) @ [newline]"

subsection \<open>The loops of \<^verbatim>\<open>create_dataset\<close>\<close>

text \<open>
  \<^verbatim>\<open>
  for a in row['annotation']:
    for label in a['label']:
      category_idx = categories.index(label)
      points = a['points']
      p1, p2 = points
      ...
      label_file.write(...)
  \<close>
  \<open>write_labels\<close> is the inner loop over the labels still to come of one annotation,
  \<open>write_annotations\<close> the outer loop. Both carry \<open>out\<close>, the text written to the label
  file so far, and return it with the exception that stopped them, if any:
  \<^verbatim>\<open>categories.index\<close> raises ValueError on a label that is not in the list, and the
  unpacking \<^verbatim>\<open>p1, p2 = points\<close> raises ValueError unless there are exactly two points.
\<close>

fun write_labels ::
  "float_model \<Rightarrow> string list \<Rightarrow> annotation \<Rightarrow> string list \<Rightarrow> string \<Rightarrow> error option \<times> string"
where
  "write_labels fm categories a [] out = (None, out)"
| "write_labels fm categories a (l # ls) out =
     (case index categories l of
        None \<Rightarrow> (Some ValueError, out)
      | Some category_idx \<Rightarrow>
          (case points a of
             [p1, p2] \<Rightarrow>
               write_labels fm categories a ls
                 (out @ format_bbox fm (make_bbox fm category_idx p1 p2))
           | _ \<Rightarrow> (Some ValueError, out)))"

fun write_annotations ::
  "float_model \<Rightarrow> string list \<Rightarrow> annotation list \<Rightarrow> string \<Rightarrow> error option \<times> string"
where
  "write_annotations fm categories [] out = (None, out)"
| "write_annotations fm categories (a # as) out =
     (case write_labels fm categories a (label a) out of
        (None, out') \<Rightarrow> write_annotations fm categories as out'
      | (Some e, out') \<Rightarrow> (Some e, out'))"

text \<open>
  The paths. \<^verbatim>\<open>Path(f"clothing/images/{dataset_type}")\<close> and the \<^verbatim>\<open>/\<close> of pathlib are
  modelled by concatenation, which is what they do for a \<open>dataset_type\<close> such as
  \<^verbatim>\<open>train\<close> or \<^verbatim>\<open>val\<close>; \<open>image_file_path\<close> is \<^verbatim>\<open>images_path / image_name\<close> and
  \<open>label_file_path\<close> is \<^verbatim>\<open>labels_path / label_name\<close>.
  \<^verbatim>\<open>mkdir(parents=True, exist_ok=True)\<close> adds the directory and its parents.
\<close>

definition images_path :: "string \<Rightarrow> string" where
  "images_path dataset_type = ''clothing/images/'' @ dataset_type"

definition labels_path :: "string \<Rightarrow> string" where
  "labels_path dataset_type = ''clothing/labels/'' @ dataset_type"

definition image_name :: "nat \<Rightarrow> string" where
  "image_name img_id = str_nat img_id @ ''.jpeg''"

definition label_name :: "nat \<Rightarrow> string" where
  "label_name img_id = str_nat img_id @ ''.txt''"

definition path_join :: "string \<Rightarrow> string \<Rightarrow> string" where
  "path_join d f = d @ ''/'' @ f"

definition image_file_path :: "string \<Rightarrow> nat \<Rightarrow> string" where
  "image_file_path dataset_type img_id = path_join (images_path dataset_type) (image_name img_id)"

definition label_file_path :: "string \<Rightarrow> nat \<Rightarrow> string" where
  "label_file_path dataset_type img_id = path_join (labels_path dataset_type) (label_name img_id)"

definition mkdir :: "string list \<Rightarrow> filesys \<Rightarrow> filesys" where
  "mkdir ds fs = fs\<lparr>dirs := dirs fs \<union> set ds\<rparr>"

definition write_file :: "string \<Rightarrow> string \<Rightarrow> filesys \<Rightarrow> filesys" where
  "write_file path text fs = fs\<lparr>files := (files fs)(path \<mapsto> text)\<rparr>"

text \<open>
  The body of the loop over the rows, for the row with identifier \<open>img_id\<close>:
  \<^verbatim>\<open>
  image_name = f"{img_id}.jpeg"
  img = urllib.request.urlopen(row["content"])
  img = Image.open(img)
  img = img.convert("RGB")
  img.save(str(images_path / image_name), "JPEG")
  label_name = f"{img_id}.txt"
  with (labels_path / label_name).open(mode="w") as label_file:
    for a in row['annotation']: ...
  \<close>
  Opening with mode \<^verbatim>\<open>w\<close> creates the file or empties it, and leaving the
  \<^verbatim>\<open>with\<close> block closes it, also when the block raises: the file then holds what
  was written before the exception.
\<close>

definition convert_row ::
  "(string \<Rightarrow> string option) \<Rightarrow> float_model \<Rightarrow> string list \<Rightarrow> string \<Rightarrow>
   nat \<Rightarrow> row \<Rightarrow> filesys \<Rightarrow> error option \<times> filesys"
where
  "convert_row urlopen fm categories dataset_type img_id r fs =
     (case urlopen (content r) of
        None \<Rightarrow> (Some URLError, fs)
      | Some img \<Rightarrow>
          (let fs1 = write_file (image_file_path dataset_type img_id) img fs;
               (err, out) = write_annotations fm categories (annotation r) []
           in (err, write_file (label_file_path dataset_type img_id) out fs1)))"

text \<open>
  \<^verbatim>\<open>for img_id, row in enumerate(tqdm(clothing)):\<close> an exception of one row ends the
  loop and the call; nothing in the function catches it.
\<close>

fun convert_rows ::
  "(string \<Rightarrow> string option) \<Rightarrow> float_model \<Rightarrow> string list \<Rightarrow> string \<Rightarrow>
   nat \<Rightarrow> row list \<Rightarrow> filesys \<Rightarrow> error option \<times> filesys"
where
  "convert_rows urlopen fm categories dataset_type img_id [] fs = (None, fs)"
| "convert_rows urlopen fm categories dataset_type img_id (r # rs) fs =
     (case convert_row urlopen fm categories dataset_type img_id r fs of
        (None, fs') \<Rightarrow> convert_rows urlopen fm categories dataset_type (Suc img_id) rs fs'
      | (Some e, fs') \<Rightarrow> (Some e, fs'))"

definition create_dataset ::
  "(string \<Rightarrow> string option) \<Rightarrow> float_model \<Rightarrow> filesys \<Rightarrow>
   row list \<Rightarrow> string list \<Rightarrow> string \<Rightarrow> error option \<times> filesys"
where
  "create_dataset urlopen fm fs clothing categories dataset_type =
     convert_rows urlopen fm categories dataset_type 0 clothing
       (mkdir [''clothing'', ''clothing/labels'', labels_path dataset_type]
         (mkdir [''clothing'', ''clothing/images'', images_path dataset_type] fs))"

subsection \<open>Vocabulary of the statements\<close>

text \<open>
  A printing of floats that never prints a line break, as Python's does not. The number
  of rows of a text is the number of its line breaks, \<open>count_list text newline\<close>.
\<close>

definition newline_free :: "float_model \<Rightarrow> bool" where
  "newline_free fm = (\<forall>v. newline \<notin> set (fl_repr fm v))"

text \<open>
  What rounding to the nearest double (IEEE 754 binary64, as Python's floats are)
  satisfies, as far as the statements below need it. For a result \<open>v\<close> in the range of
  the finite doubles the error is at most \<open>\<bar>v\<bar> / 2^53\<close> when the result is a normal
  number and at most \<open>1 / 2^1075\<close> when it is subnormal; rounding is odd (the sign is
  kept) and monotone. The identity, exact arithmetic, satisfies it as well.
\<close>

definition binary64_rounding :: "(real \<Rightarrow> real) \<Rightarrow> bool" where
  "binary64_rounding rnd =
     ((\<forall>v. \<bar>v\<bar> \<le> 2 ^ 1023 \<longrightarrow> \<bar>rnd v - v\<bar> \<le> \<bar>v\<bar> / 2 ^ 53 + 1 / 2 ^ 1075)
      \<and> (\<forall>v. rnd (- v) = - rnd v)
      \<and> (\<forall>u v. u \<le> v \<longrightarrow> rnd u \<le> rnd v))"

subsection \<open>Example data\<close>

text \<open>
  The data of the concrete evaluations below. \<open>short_decimal\<close> prints a number with one
  digit after the point, or two when the second is not zero, which is how Python prints
  the floats \<^verbatim>\<open>0.0\<close>, \<^verbatim>\<open>0.25\<close>, \<^verbatim>\<open>0.5\<close>, \<^verbatim>\<open>0.75\<close>, \<^verbatim>\<open>1.0\<close> and \<^verbatim>\<open>-1.0\<close> that
  the example rows lead to; \<open>exact\<close> is exact arithmetic with that printing;
  \<open>empty_fs\<close> is a file system with nothing in it;
  \<open>box_annotation\<close> is an annotation of a picture of 147 by 312 pixels.
\<close>

definition short_decimal :: "real \<Rightarrow> string" where
  "short_decimal v =
     (if v < 0 then ''-'' else '''') @ str_nat (nat \<lfloor>\<bar>v\<bar>\<rfloor>) @ ''.'' @
     str_nat (nat \<lfloor>\<bar>v\<bar> * 10\<rfloor> mod 10) @
     (if nat \<lfloor>\<bar>v\<bar> * 100\<rfloor> mod 10 = 0 then ''''
      else str_nat (nat \<lfloor>\<bar>v\<bar> * 100\<rfloor> mod 10))"

definition exact :: float_model where
  "exact = \<lparr>fl_round = (\<lambda>v. v), fl_repr = short_decimal\<rparr>"

definition empty_fs :: filesys where
  "empty_fs = \<lparr>dirs = {}, files = Map.empty\<rparr>"

definition box_annotation :: "string list \<Rightarrow> real \<times> real \<Rightarrow> real \<times> real \<Rightarrow> annotation" where
  "box_annotation labels p q =
     \<lparr>imageHeight = 312, imageWidth = 147, label = labels, annotation_notes = '''',
      points = [\<lparr>pt_x = fst p, pt_y = snd p\<rparr>, \<lparr>pt_x = fst q, pt_y = snd q\<rparr>]\<rparr>"

definition tops_row :: row where
  "tops_row = \<lparr>annotation = [box_annotation [''Tops''] (0, 0) (1, 1)], content = ''http://host/0''\<rparr>"

definition bare_row :: row where
  "bare_row = \<lparr>annotation = [], content = ''http://host/1''\<rparr>"

definition jeans_tops_row :: row where
  "jeans_tops_row =
     \<lparr>annotation = [box_annotation [''Jeans''] (0, 0) (1/2, 1), box_annotation [''Tops''] (1/2, 0) (1, 1)],
      content = ''http://host/2''\<rparr>"

definition every_url :: "string \<Rightarrow> string option" where
  "every_url u = Some (''JPEG of '' @ u)"

definition shoes_row :: row where
  "shoes_row =
     \<lparr>annotation = [box_annotation [''Tops''] (0, 0) (1, 1), box_annotation [''Shoes''] (0, 0) (1, 1)],
      content = ''http://host/3''\<rparr>"

definition degenerate_row :: row where
  "degenerate_row =
     \<lparr>annotation = [box_annotation [''Tops''] (0, 1/2) (1, 1/2), box_annotation [''Jeans''] (1, 1) (0, 0)],
      content = ''http://host/4''\<rparr>"

definition two_label_row :: row where
  "two_label_row =
     \<lparr>annotation = [box_annotation [''Tops'', ''Jeans''] (0, 0) (1, 1)], content = ''http://host/5''\<rparr>"

definition unreachable_url :: "string \<Rightarrow> string \<Rightarrow> string option" where
  "unreachable_url bad u = (if u = bad then None else every_url u)"

definition three_line_row :: row where
  "three_line_row =
     \<lparr>annotation = [box_annotation [''Tops'', ''Jeans''] (0, 0) (1, 1), box_annotation [''Tops''] (0, 0) (1, 1)],
      content = ''http://host/6''\<rparr>"

definition one_line_row :: row where
  "one_line_row =
     \<lparr>annotation = [box_annotation [] (0, 0) (1, 1), box_annotation [''Tops''] (0, 0) (1, 1)],
      content = ''http://host/7''\<rparr>"

section \<open>Properties\<close>

subsection \<open>The category list\<close>

lemma set_extend_labels:
  "set (extend_labels acc as) = set acc \<union> (\<Union>a \<in> set as. set (label a))"
  by (induction as arbitrary: acc) auto

lemma set_collect_labels:
  "set (collect_labels acc cs) =
     set acc \<union> (\<Union>c \<in> set cs. \<Union>a \<in> set (annotation c). set (label a))"
  by (induction cs arbitrary: acc) (auto simp: set_extend_labels)

lemma reordered_rows_same_labels:
  "set clothing1 = set clothing2 \<Longrightarrow>
   set (collect_labels [] clothing1) = set (collect_labels [] clothing2)"
  by (simp add: set_collect_labels)

lemma index_None_iff: "index xs v = None \<longleftrightarrow> v \<notin> set xs"
  by (induction xs) auto

lemma index_Some_nth: "index xs v = Some i \<Longrightarrow> i < length xs \<and> xs ! i = v"
  by (induction xs arbitrary: i) (auto split: if_splits)

lemma index_nth_distinct: "distinct xs \<Longrightarrow> i < length xs \<Longrightarrow> index xs (xs ! i) = Some i"
proof (induction xs arbitrary: i)
  case Nil
  then show ?case by simp
next
  case (Cons u us)
  show ?case
  proof (cases i)
    case 0
    then show ?thesis by simp
  next
    case (Suc j)
    with Cons.prems have "j < length us" and "us ! j \<noteq> u"
      by auto
    with Cons.IH Cons.prems Suc show ?thesis by auto
  qed
qed

lemma build_categories_sorted_list:
  assumes "set_iteration set_order"
  shows "build_categories set_order clothing = sorted_list_of_set (set (collect_labels [] clothing))"
proof -
  let ?xs = "set_order (collect_labels [] clothing)"
  from assms have d: "distinct ?xs" and s: "set ?xs = set (collect_labels [] clothing)"
    by (simp_all add: set_iteration_def)
  have "sort ?xs = sorted_list_of_set (set ?xs)"
    using d by (simp add: sorted_list_of_set_sort_remdups distinct_remdups_id)
  then show ?thesis by (simp add: build_categories_def s)
qed

lemma set_iteration_remdups: "set_iteration remdups"
  by (simp add: set_iteration_def)

lemma set_iteration_rev_remdups: "set_iteration (\<lambda>xs. rev (remdups xs))"
  by (simp add: set_iteration_def)

subsection \<open>Decimal numerals and paths\<close>

lemma digit_char_inj: "d < 10 \<Longrightarrow> e < 10 \<Longrightarrow> digit_char d = digit_char e \<Longrightarrow> d = e"
proof -
  assume "d < 10" "e < 10" "digit_char d = digit_char e"
  moreover have "distinct ''0123456789''" by simp
  ultimately show "d = e"
    by (simp add: digit_char_def nth_eq_iff_index_eq del: distinct.simps)
qed

lemma digit_char_neq_newline: "d < 10 \<Longrightarrow> digit_char d \<noteq> newline"
proof -
  assume "d < 10"
  then have "digit_char d \<in> set ''0123456789''"
    by (simp add: digit_char_def del: set_simps)
  then show ?thesis
    by (auto simp: newline_def)
qed

lemma str_nat_nonempty: "str_nat n \<noteq> []"
  by (subst str_nat.simps) simp

lemma newline_notin_str_nat: "newline \<notin> set (str_nat n)"
proof (induction n rule: str_nat.induct)
  case (1 n)
  show ?case
  proof (cases "n < 10")
    case True
    then show ?thesis
      by (simp add: str_nat.simps [of n] digit_char_neq_newline [symmetric])
  next
    case False
    with 1 show ?thesis
      by (simp add: str_nat.simps [of n] digit_char_neq_newline [symmetric])
  qed
qed

lemma str_nat_inj: "str_nat m = str_nat n \<Longrightarrow> m = n"
proof (induction m arbitrary: n rule: str_nat.induct)
  case (1 m)
  show ?case
  proof (cases "m < 10")
    case m: True
    show ?thesis
    proof (cases "n < 10")
      case True
      with m "1.prems" show ?thesis
        by (simp add: str_nat.simps [of m] str_nat.simps [of n] digit_char_inj)
    next
      case False
      with m "1.prems" str_nat_nonempty [of "n div 10"] show ?thesis
        by (simp add: str_nat.simps [of m] str_nat.simps [of n] Cons_eq_append_conv)
    qed
  next
    case m: False
    show ?thesis
    proof (cases "n < 10")
      case True
      with m "1.prems" str_nat_nonempty [of "m div 10"] show ?thesis
        by (simp add: str_nat.simps [of m] str_nat.simps [of n] append_eq_Cons_conv)
    next
      case False
      with m "1.prems" have e: "str_nat (m div 10) = str_nat (n div 10)"
        and d: "digit_char (m mod 10) = digit_char (n mod 10)"
        by (simp_all add: str_nat.simps [of m] str_nat.simps [of n])
      from "1.IH" [OF m e] have "m div 10 = n div 10" .
      moreover from d have "m mod 10 = n mod 10"
        by (simp add: digit_char_inj)
      ultimately show ?thesis
        by (metis div_mult_mod_eq)
    qed
  qed
qed

lemma label_file_path_inj: "label_file_path dt i = label_file_path dt j \<longleftrightarrow> i = j"
  by (auto simp: label_file_path_def path_join_def label_name_def dest: str_nat_inj)

lemma image_file_path_inj: "image_file_path dt i = image_file_path dt j \<longleftrightarrow> i = j"
  by (auto simp: image_file_path_def path_join_def image_name_def dest: str_nat_inj)

lemma image_neq_label_file_path: "image_file_path dt i \<noteq> label_file_path dt' j"
  by (simp add: image_file_path_def label_file_path_def path_join_def images_path_def
      labels_path_def)

lemma label_neq_image_file_path: "label_file_path dt i \<noteq> image_file_path dt' j"
  by (simp add: image_file_path_def label_file_path_def path_join_def images_path_def
      labels_path_def)

subsection \<open>The loops over labels and annotations\<close>

text \<open>The rows that one annotation contributes when none of its labels fails.\<close>

lemma write_labels_known:
  assumes "points a = [p1, p2]" and "\<forall>l \<in> set ls. l \<in> set categories"
  shows "write_labels fm categories a ls out =
    (None, out @ concat (map (\<lambda>l. format_bbox fm
        (make_bbox fm (the (index categories l)) p1 p2)) ls))"
  using assms(2)
proof (induction ls arbitrary: out)
  case Nil
  then show ?case by simp
next
  case (Cons l ls)
  then obtain i where "index categories l = Some i"
    using index_None_iff [of categories l] by auto
  with Cons assms(1) show ?case by simp
qed

lemma write_labels_error: "fst (write_labels fm categories a ls out) = Some e \<Longrightarrow> e = ValueError"
  by (induction ls arbitrary: out) (auto split: option.splits list.splits)


lemma write_labels_out:
  "snd (write_labels fm categories a ls out) =
   out @ snd (write_labels fm categories a ls [])"
proof (induction ls arbitrary: out)
  case Nil
  then show ?case by simp
next
  case (Cons l ls)
  show ?case
  proof (cases "index categories l")
    case None
    then show ?thesis by simp
  next
    case (Some i)
    show ?thesis
    proof (cases "\<exists>p1 p2. points a = [p1, p2]")
      case True
      then obtain p1 p2 where "points a = [p1, p2]" by auto
      with Some Cons.IH [of "out @ format_bbox fm (make_bbox fm i p1 p2)"]
        Cons.IH [of "format_bbox fm (make_bbox fm i p1 p2)"]
      show ?thesis by simp
    next
      case False
      with Some show ?thesis
        by (auto split: list.splits)
    qed
  qed
qed

lemma write_labels_fst:
  "fst (write_labels fm categories a ls out) =
   fst (write_labels fm categories a ls [])"
proof (induction ls arbitrary: out)
  case Nil
  then show ?case by simp
next
  case (Cons l ls)
  have eq: "fst (write_labels fm categories a ls u) =
      fst (write_labels fm categories a ls v)" for u v
    using Cons.IH [of u] Cons.IH [of v] by simp
  show ?case
    by (auto split: option.splits list.splits intro: eq)
qed

lemma write_annotations_error:
  "fst (write_annotations fm categories as out) = Some e \<Longrightarrow> e = ValueError"
proof (induction as arbitrary: out)
  case Nil
  then show ?case by simp
next
  case (Cons a as)
  then show ?case
    using write_labels_error [of fm categories a "label a" out]
    by (auto split: prod.splits option.splits)
qed

lemma write_annotations_out:
  "write_annotations fm categories as out =
   (fst (write_annotations fm categories as []),
    out @ snd (write_annotations fm categories as []))"
proof (induction as arbitrary: out)
  case Nil
  then show ?case by simp
next
  case (Cons a as)
  obtain e t where w: "write_labels fm categories a (label a) [] = (e, t)"
    by (cases "write_labels fm categories a (label a) []")
  with write_labels_out [of fm categories a "label a" out]
    write_labels_fst [of fm categories a "label a" out]
  have w': "write_labels fm categories a (label a) out = (e, out @ t)"
    by (simp add: prod_eq_iff)
  show ?case
  proof (cases e)
    case None
    with w w' Cons.IH [of "out @ t"] Cons.IH [of t] show ?thesis by simp
  next
    case (Some err)
    with w w' show ?thesis by simp
  qed
qed

lemma write_annotations_append:
  "write_annotations fm categories (as @ bs) out =
   (case write_annotations fm categories as out of
      (None, out') \<Rightarrow> write_annotations fm categories bs out'
    | (Some e, out') \<Rightarrow> (Some e, out'))"
  by (induction as arbitrary: out) (auto split: prod.splits option.splits)


subsection \<open>The loop over the rows\<close>

lemma convert_row_failed_fetch:
  "urlopen (content r) = None \<Longrightarrow>
   convert_row urlopen fm categories dataset_type img_id r fs = (Some URLError, fs)"
  by (simp add: convert_row_def)

lemma convert_row_fetched:
  "urlopen (content r) = Some img \<Longrightarrow>
   convert_row urlopen fm categories dataset_type img_id r fs =
     (fst (write_annotations fm categories (annotation r) []),
      write_file (label_file_path dataset_type img_id)
        (snd (write_annotations fm categories (annotation r) []))
        (write_file (image_file_path dataset_type img_id) img fs))"
  by (simp add: convert_row_def split: prod.splits)

lemma files_write_file: "files (write_file p t fs) q = (if q = p then Some t else files fs q)"
  by (simp add: write_file_def)

lemma files_mkdir: "files (mkdir ds fs) = files fs"
  by (simp add: mkdir_def)

lemma convert_row_frame:
  "p \<noteq> image_file_path dataset_type img_id \<Longrightarrow> p \<noteq> label_file_path dataset_type img_id \<Longrightarrow>
   files (snd (convert_row urlopen fm categories dataset_type img_id r fs)) p = files fs p"
  by (cases "urlopen (content r)")
    (simp_all add: convert_row_failed_fetch convert_row_fetched files_write_file)

lemma convert_rows_frame:
  "(\<And>j. img_id \<le> j \<Longrightarrow> j < img_id + length rs \<Longrightarrow>
      p \<noteq> image_file_path dataset_type j \<and> p \<noteq> label_file_path dataset_type j) \<Longrightarrow>
   files (snd (convert_rows urlopen fm categories dataset_type img_id rs fs)) p = files fs p"
proof (induction rs arbitrary: img_id fs)
  case Nil
  then show ?case by simp
next
  case (Cons r rs)
  obtain e fs' where c: "convert_row urlopen fm categories dataset_type img_id r fs = (e, fs')"
    by (cases "convert_row urlopen fm categories dataset_type img_id r fs")
  from Cons.prems [of img_id] have "files fs' p = files fs p"
    using convert_row_frame [of p dataset_type img_id urlopen fm categories r fs] c
    by simp
  moreover have "files (snd (convert_rows urlopen fm categories dataset_type (Suc img_id) rs fs')) p
      = files fs' p"
    by (rule Cons.IH) (use Cons.prems in simp)
  ultimately show ?case
    using c by (cases e) simp_all
qed

lemma convert_rows_append:
  "convert_rows urlopen fm categories dataset_type img_id (rs @ ss) fs =
   (case convert_rows urlopen fm categories dataset_type img_id rs fs of
      (None, fs') \<Rightarrow>
        convert_rows urlopen fm categories dataset_type (img_id + length rs) ss fs'
    | (Some e, fs') \<Rightarrow> (Some e, fs'))"
  by (induction rs arbitrary: img_id fs) (auto split: prod.splits option.splits)

lemma create_dataset_step:
  assumes "fst (create_dataset urlopen fm fs pre categories dataset_type) = None"
  shows "create_dataset urlopen fm fs (pre @ r # post) categories dataset_type =
    (case convert_row urlopen fm categories dataset_type (length pre) r
            (snd (create_dataset urlopen fm fs pre categories dataset_type)) of
       (None, fs') \<Rightarrow>
         convert_rows urlopen fm categories dataset_type (Suc (length pre)) post fs'
     | (Some e, fs') \<Rightarrow> (Some e, fs'))"
  using assms
  by (auto simp: create_dataset_def convert_rows_append split: prod.splits option.splits)

lemma create_dataset_frame:
  "(\<And>j. j < length clothing \<Longrightarrow>
      p \<noteq> image_file_path dataset_type j \<and> p \<noteq> label_file_path dataset_type j) \<Longrightarrow>
   files (snd (create_dataset urlopen fm fs clothing categories dataset_type)) p = files fs p"
  by (simp add: create_dataset_def convert_rows_frame files_mkdir)

lemma convert_rows_keeps_label_file:
  "j < img_id \<Longrightarrow>
   files (snd (convert_rows urlopen fm categories dataset_type img_id rs fs))
     (label_file_path dataset_type j) = files fs (label_file_path dataset_type j)"
  by (rule convert_rows_frame) (simp add: label_file_path_inj label_neq_image_file_path)

lemma convert_rows_keeps_image_file:
  "j < img_id \<Longrightarrow>
   files (snd (convert_rows urlopen fm categories dataset_type img_id rs fs))
     (image_file_path dataset_type j) = files fs (image_file_path dataset_type j)"
  by (rule convert_rows_frame) (simp add: image_file_path_inj image_neq_label_file_path)

subsection \<open>One row inside a batch\<close>

lemma write_annotations_known:
  assumes "\<forall>a \<in> set as. length (points a) = 2 \<and> (\<forall>l \<in> set (label a). l \<in> set categories)"
  shows "write_annotations fm categories as out =
    (None, out @ concat (map (\<lambda>a. concat (map (\<lambda>l. format_bbox fm
        (make_bbox fm (the (index categories l)) (points a ! 0) (points a ! 1))) (label a))) as))"
  using assms
proof (induction as arbitrary: out)
  case Nil
  then show ?case by simp
next
  case (Cons a as)
  from Cons.prems have "length (points a) = 2" by simp
  then obtain p1 p2 where p: "points a = [p1, p2]"
    by (cases "points a" rule: list.exhaust; simp)
      (metis Suc_length_conv length_0_conv)
  from Cons.prems have "\<forall>l \<in> set (label a). l \<in> set categories" by simp
  from write_labels_known [OF p this, of fm out] Cons.IH Cons.prems p
  show ?case by simp
qed

lemma write_annotations_no_labels:
  "\<forall>a \<in> set as. label a = [] \<Longrightarrow> write_annotations fm categories as out = (None, out)"
  by (induction as arbitrary: out) simp_all

lemma create_dataset_snoc:
  assumes "fst (create_dataset urlopen fm fs pre categories dataset_type) = None"
  shows "create_dataset urlopen fm fs (pre @ [r]) categories dataset_type =
    convert_row urlopen fm categories dataset_type (length pre) r
      (snd (create_dataset urlopen fm fs pre categories dataset_type))"
  using create_dataset_step [OF assms, of r "[]"]
  by (auto split: prod.splits option.splits)


lemma row_in_batch:
  assumes pre: "fst (create_dataset urlopen fm fs pre categories dataset_type) = None"
    and img: "urlopen (content r) = Some img"
  shows "files (snd (create_dataset urlopen fm fs (pre @ r # post) categories dataset_type))
      (label_file_path dataset_type (length pre)) =
      Some (snd (write_annotations fm categories (annotation r) []))"
    and "files (snd (create_dataset urlopen fm fs (pre @ r # post) categories dataset_type))
      (image_file_path dataset_type (length pre)) = Some img"
    and "fst (create_dataset urlopen fm fs (pre @ [r]) categories dataset_type) =
      fst (write_annotations fm categories (annotation r) [])"
proof -
  let ?fs1 = "snd (create_dataset urlopen fm fs pre categories dataset_type)"
  let ?w = "write_annotations fm categories (annotation r) []"
  let ?fs2 = "write_file (label_file_path dataset_type (length pre)) (snd ?w)
      (write_file (image_file_path dataset_type (length pre)) img ?fs1)"
  have row: "convert_row urlopen fm categories dataset_type (length pre) r ?fs1 = (fst ?w, ?fs2)"
    using img by (rule convert_row_fetched)
  have l2: "files ?fs2 (label_file_path dataset_type (length pre)) = Some (snd ?w)"
    by (simp add: files_write_file)
  have i2: "files ?fs2 (image_file_path dataset_type (length pre)) = Some img"
    by (simp add: files_write_file image_neq_label_file_path)
  show "fst (create_dataset urlopen fm fs (pre @ [r]) categories dataset_type) = fst ?w"
    by (simp add: create_dataset_snoc [OF pre] row)
  show "files (snd (create_dataset urlopen fm fs (pre @ r # post) categories dataset_type))
      (label_file_path dataset_type (length pre)) = Some (snd ?w)"
  proof (cases "fst ?w")
    case None
    with create_dataset_step [OF pre, of r post] row l2 show ?thesis
      by (simp add: convert_rows_keeps_label_file)
  next
    case (Some e)
    with create_dataset_step [OF pre, of r post] row l2 show ?thesis
      by simp
  qed
  show "files (snd (create_dataset urlopen fm fs (pre @ r # post) categories dataset_type))
      (image_file_path dataset_type (length pre)) = Some img"
  proof (cases "fst ?w")
    case None
    with create_dataset_step [OF pre, of r post] row i2 show ?thesis
      by (simp add: convert_rows_keeps_image_file)
  next
    case (Some e)
    with create_dataset_step [OF pre, of r post] row i2 show ?thesis
      by simp
  qed
qed

lemma convert_rows_all_ok:
  "\<forall>r \<in> set rs. urlopen (content r) \<noteq> None \<and>
      fst (write_annotations fm categories (annotation r) []) = None \<Longrightarrow>
   fst (convert_rows urlopen fm categories dataset_type img_id rs fs) = None"
proof (induction rs arbitrary: img_id fs)
  case Nil
  then show ?case by simp
next
  case (Cons r rs)
  then obtain img where "urlopen (content r) = Some img" by auto
  then have "convert_row urlopen fm categories dataset_type img_id r fs =
     (fst (write_annotations fm categories (annotation r) []),
      write_file (label_file_path dataset_type img_id)
        (snd (write_annotations fm categories (annotation r) []))
        (write_file (image_file_path dataset_type img_id) img fs))"
    by (rule convert_row_fetched)
  with Cons show ?case by simp
qed

lemma create_dataset_all_ok:
  "\<forall>r \<in> set clothing. urlopen (content r) \<noteq> None \<and>
      fst (write_annotations fm categories (annotation r) []) = None \<Longrightarrow>
   fst (create_dataset urlopen fm fs clothing categories dataset_type) = None"
  by (simp add: create_dataset_def convert_rows_all_ok)

lemma create_dataset_untouched_later:
  "length clothing \<le> j \<Longrightarrow>
   files (snd (create_dataset urlopen fm fs clothing categories dataset_type))
     (label_file_path dataset_type j) = files fs (label_file_path dataset_type j)
   \<and> files (snd (create_dataset urlopen fm fs clothing categories dataset_type))
     (image_file_path dataset_type j) = files fs (image_file_path dataset_type j)"
  by (simp add: create_dataset_frame label_file_path_inj image_file_path_inj
      label_neq_image_file_path image_neq_label_file_path)

subsection \<open>Evaluation on numerals\<close>

lemma str_nat_0: "str_nat 0 = ''0''"
  by (simp add: str_nat.simps digit_char_def)

lemma str_nat_1: "str_nat (Suc 0) = ''1''"
  by (simp add: str_nat.simps digit_char_def)

lemma str_nat_2: "str_nat (Suc (Suc 0)) = ''2''"
  by (simp add: str_nat.simps digit_char_def)

lemma str_nat_numeral:
  "str_nat (numeral k) =
     (if (numeral k :: nat) < 10 then [digit_char (numeral k)]
      else str_nat (numeral k div 10) @ [digit_char (numeral k mod 10)])"
  by (rule str_nat.simps)

lemmas str_nat_eval = str_nat_0 str_nat_1 str_nat_2 str_nat_numeral digit_char_def

lemma short_decimal_examples:
  "short_decimal 0 = ''0.0''" "short_decimal 1 = ''1.0''" "short_decimal (1/2) = ''0.5''"
  "short_decimal (1/4) = ''0.25''" "short_decimal (3/4) = ''0.75''"
  "short_decimal (- 1) = ''-1.0''" "short_decimal (- (1/2)) = ''-0.5''"
  by (simp_all add: short_decimal_def str_nat_eval)

lemma exact_simps [simp]: "fl_round exact v = v" "fl_repr exact = short_decimal"
  by (simp_all add: exact_def)

lemma newline_free_exact: "newline_free exact"
  by (simp add: newline_free_def short_decimal_def newline_notin_str_nat) (simp add: newline_def)

lemma count_newline_format_bbox:
  "newline_free fm \<Longrightarrow> count_list (format_bbox fm b) newline = 1"
  by (simp add: format_bbox_def newline_free_def newline_notin_str_nat)
    (simp add: newline_def)

lemma count_newline_rows:
  "newline_free fm \<Longrightarrow>
   count_list (concat (map (\<lambda>l. format_bbox fm (f l)) ls)) newline = length ls"
  by (induction ls) (simp_all add: count_newline_format_bbox)

subsection \<open>The example batch\<close>

lemma tops_row_rows:
  "write_annotations exact [''Jeans'', ''Tops''] (annotation tops_row) [] =
     (None, ''1 0.5 0.5 1.0 1.0'' @ [newline])"
  by (simp add: tops_row_def box_annotation_def make_bbox_def Let_def format_bbox_def
      short_decimal_examples str_nat_eval)

lemma jeans_tops_row_rows:
  "write_annotations exact [''Jeans'', ''Tops''] (annotation jeans_tops_row) [] =
     (None, ''0 0.25 0.5 0.5 1.0'' @ [newline] @ ''1 0.75 0.5 0.5 1.0'' @ [newline])"
  by (simp add: jeans_tops_row_def box_annotation_def make_bbox_def Let_def format_bbox_def
      short_decimal_examples str_nat_eval)


lemma bare_row_rows:
  "write_annotations fm categories (annotation bare_row) [] = (None, [])"
  by (simp add: bare_row_def)

lemma example_contents:
  "content tops_row = ''http://host/0''" "content bare_row = ''http://host/1''"
  "content jeans_tops_row = ''http://host/2''" "content shoes_row = ''http://host/3''"
  by (simp_all add: tops_row_def bare_row_def jeans_tops_row_def shoes_row_def)

lemma example_paths:
  "label_file_path ''train'' 0 = ''clothing/labels/train/0.txt''"
  "label_file_path ''train'' (Suc 0) = ''clothing/labels/train/1.txt''"
  "label_file_path ''train'' (Suc (Suc 0)) = ''clothing/labels/train/2.txt''"
  "image_file_path ''train'' 0 = ''clothing/images/train/0.jpeg''"
  "image_file_path ''train'' (Suc 0) = ''clothing/images/train/1.jpeg''"
  "image_file_path ''train'' (Suc (Suc 0)) = ''clothing/images/train/2.jpeg''"
  by (simp_all add: label_file_path_def image_file_path_def path_join_def labels_path_def
      images_path_def label_name_def image_name_def str_nat_eval)

lemma three_rows_converted:
  "create_dataset every_url exact empty_fs [tops_row, bare_row, jeans_tops_row]
     [''Jeans'', ''Tops''] ''train'' =
   (None,
    \<lparr>dirs = {''clothing'', ''clothing/images'', ''clothing/images/train'',
             ''clothing/labels'', ''clothing/labels/train''},
     files = [''clothing/images/train/0.jpeg'' \<mapsto> ''JPEG of http://host/0'',
              ''clothing/labels/train/0.txt'' \<mapsto> ''1 0.5 0.5 1.0 1.0'' @ [newline],
              ''clothing/images/train/1.jpeg'' \<mapsto> ''JPEG of http://host/1'',
              ''clothing/labels/train/1.txt'' \<mapsto> [],
              ''clothing/images/train/2.jpeg'' \<mapsto> ''JPEG of http://host/2'',
              ''clothing/labels/train/2.txt'' \<mapsto>
                 ''0 0.25 0.5 0.5 1.0'' @ [newline] @ ''1 0.75 0.5 0.5 1.0'' @ [newline]]\<rparr>)"
  by (simp add: create_dataset_def convert_row_fetched every_url_def example_contents
      tops_row_rows bare_row_rows jeans_tops_row_rows example_paths write_file_def mkdir_def
      empty_fs_def images_path_def labels_path_def insert_commute)

lemma example_contents_more:
  "content degenerate_row = ''http://host/4''" "content two_label_row = ''http://host/5''"
  by (simp_all add: degenerate_row_def two_label_row_def)

lemma one_row_converted:
  "create_dataset every_url exact empty_fs [tops_row] [''Jeans'', ''Tops''] ''train'' =
   (None,
    \<lparr>dirs = {''clothing'', ''clothing/images'', ''clothing/images/train'',
             ''clothing/labels'', ''clothing/labels/train''},
     files = [''clothing/images/train/0.jpeg'' \<mapsto> ''JPEG of http://host/0'',
              ''clothing/labels/train/0.txt'' \<mapsto> ''1 0.5 0.5 1.0 1.0'' @ [newline]]\<rparr>)"
  by (simp add: create_dataset_def convert_row_fetched every_url_def example_contents
      tops_row_rows example_paths write_file_def mkdir_def
      empty_fs_def images_path_def labels_path_def insert_commute)

lemma failed_fetch_batch:
  "create_dataset (unreachable_url ''http://host/1'') exact empty_fs
     [tops_row, bare_row, jeans_tops_row] [''Jeans'', ''Tops''] ''train'' =
   (Some URLError,
    \<lparr>dirs = {''clothing'', ''clothing/images'', ''clothing/images/train'',
             ''clothing/labels'', ''clothing/labels/train''},
     files = [''clothing/images/train/0.jpeg'' \<mapsto> ''JPEG of http://host/0'',
              ''clothing/labels/train/0.txt'' \<mapsto> ''1 0.5 0.5 1.0 1.0'' @ [newline]]\<rparr>)"
  by (simp add: create_dataset_def convert_row_fetched convert_row_failed_fetch
      unreachable_url_def every_url_def example_contents
      tops_row_rows example_paths write_file_def mkdir_def
      empty_fs_def images_path_def labels_path_def insert_commute)



lemma degenerate_row_rows:
  "write_annotations exact [''Jeans'', ''Tops''] (annotation degenerate_row) [] =
     (None, ''1 0.5 0.5 1.0 0.0'' @ [newline] @ ''0 0.5 0.5 -1.0 -1.0'' @ [newline])"
  by (simp add: degenerate_row_def box_annotation_def make_bbox_def Let_def format_bbox_def
      short_decimal_examples str_nat_eval)

lemma two_label_row_rows:
  "write_annotations exact [''Jeans'', ''Tops''] (annotation two_label_row) [] =
     (None, ''1 0.5 0.5 1.0 1.0'' @ [newline] @ ''0 0.5 0.5 1.0 1.0'' @ [newline])"
  by (simp add: two_label_row_def box_annotation_def make_bbox_def Let_def format_bbox_def
      short_decimal_examples str_nat_eval)

lemma no_rows_converted:
  "create_dataset urlopen fm fs [] categories dataset_type =
     (None, mkdir [''clothing'', ''clothing/labels'', labels_path dataset_type]
         (mkdir [''clothing'', ''clothing/images'', images_path dataset_type] fs))"
  by (simp add: create_dataset_def)

subsection \<open>Rounding\<close>

lemma binary64_rounding_exact: "binary64_rounding (fl_round exact)"
  by (simp add: binary64_rounding_def)

lemma binary64_rounding_odd: "binary64_rounding rnd \<Longrightarrow> rnd (- v) = - rnd v"
  by (simp add: binary64_rounding_def)

lemma binary64_rounding_zero: "binary64_rounding rnd \<Longrightarrow> rnd 0 = 0"
  using binary64_rounding_odd [of rnd 0] by simp

lemma binary64_rounding_mono: "binary64_rounding rnd \<Longrightarrow> u \<le> v \<Longrightarrow> rnd u \<le> rnd v"
  by (simp add: binary64_rounding_def)

lemma binary64_rounding_nonneg: "binary64_rounding rnd \<Longrightarrow> 0 \<le> v \<Longrightarrow> 0 \<le> rnd v"
  using binary64_rounding_mono [of rnd 0 v] by (simp add: binary64_rounding_zero)

text \<open>For results of size at most 4 the error of one operation is below \<open>10^-15\<close>.\<close>

lemma binary64_rounding_small:
  assumes "binary64_rounding rnd" and "\<bar>v\<bar> \<le> 4"
  shows "\<bar>rnd v - v\<bar> \<le> 1 / 10 ^ 15"
proof -
  have "(4::real) = 2 ^ 2" by simp
  also have "\<dots> \<le> 2 ^ 1023" by (rule power_increasing) simp_all
  finally have "\<bar>v\<bar> \<le> 2 ^ 1023" using assms(2) by linarith
  with assms(1) have e: "\<bar>rnd v - v\<bar> \<le> \<bar>v\<bar> / 2 ^ 53 + 1 / 2 ^ 1075"
    by (simp add: binary64_rounding_def)
  have "(2::real) ^ 53 \<le> 2 ^ 1075" by (rule power_increasing) simp_all
  then have "(1::real) / 2 ^ 1075 \<le> 1 / 2 ^ 53"
    by (intro divide_left_mono) simp_all
  moreover have "\<bar>v\<bar> / 2 ^ 53 \<le> 4 / 2 ^ 53"
    using assms(2) by (intro divide_right_mono) simp_all
  moreover have "(4::real) / 2 ^ 53 + 1 / 2 ^ 53 \<le> 1 / 10 ^ 15" by simp
  ultimately show ?thesis using e by linarith
qed

lemma binary64_rounding_close:
  assumes "binary64_rounding rnd" and "\<bar>v - t\<bar> \<le> d" and "\<bar>t\<bar> + d \<le> 4"
  shows "\<bar>rnd v - t\<bar> \<le> d + 1 / 10 ^ 15"
proof -
  from assms(2,3) have "\<bar>v\<bar> \<le> 4" by linarith
  from binary64_rounding_small [OF assms(1) this] assms(2) show ?thesis by linarith
qed

lemma near_sub: "\<bar>a - s\<bar> \<le> d \<Longrightarrow> \<bar>b - t\<bar> \<le> e \<Longrightarrow> \<bar>(b - a) - (t - s)\<bar> \<le> d + (e::real)"
  by linarith

lemma near_add: "\<bar>a - s\<bar> \<le> d \<Longrightarrow> \<bar>b - t\<bar> \<le> e \<Longrightarrow> \<bar>(a + b) - (s + t)\<bar> \<le> d + (e::real)"
  by linarith

lemma near_half: "\<bar>a - s\<bar> \<le> d \<Longrightarrow> \<bar>a / 2 - s / 2\<bar> \<le> d / (2::real)"
  by linarith

lemma near_weaken: "\<bar>a - s\<bar> \<le> d \<Longrightarrow> s = t \<Longrightarrow> d \<le> e \<Longrightarrow> \<bar>a - t\<bar> \<le> (e::real)"
  by linarith

text \<open>
  One operation whose exact result is within \<open>d\<close> of a number about as large as the
  coordinates of a picture: the returned float is within \<open>d + 10^-15\<close> of it.
\<close>

lemma binary64_rounding_near:
  assumes "binary64_rounding rnd" and "\<bar>v - t\<bar> \<le> d"
  shows "\<bar>t\<bar> + d \<le> 4 \<Longrightarrow> \<bar>rnd v - t\<bar> \<le> d + 1 / 10 ^ 15"
  using assms by (rule binary64_rounding_close)

subsection \<open>What the caller gets back\<close>

text \<open>
  The first component of the result is all that the caller of \<^verbatim>\<open>create_dataset\<close>
  receives: the exception, or \<open>None\<close> for a normal return (the function has no
  \<^verbatim>\<open>return\<close> statement). It depends on the rows, the category list and the fetches,
  not on the identifiers or on the files.
\<close>

lemma fst_convert_row:
  "fst (convert_row urlopen fm categories dataset_type img_id r fs) =
     (case urlopen (content r) of
        None \<Rightarrow> Some URLError
      | Some img \<Rightarrow> fst (write_annotations fm categories (annotation r) []))"
  by (simp add: convert_row_def split: option.splits prod.splits)

lemma fst_convert_rows:
  "fst (convert_rows urlopen fm categories dataset_type img_id rs fs) =
   fst (convert_rows urlopen fm categories dataset_type img_id' rs fs')"
proof (induction rs arbitrary: img_id img_id' fs fs')
  case Nil
  then show ?case by simp
next
  case (Cons r rs)
  obtain e fs1 where c1: "convert_row urlopen fm categories dataset_type img_id r fs = (e, fs1)"
    by (cases "convert_row urlopen fm categories dataset_type img_id r fs")
  obtain e' fs2 where c2: "convert_row urlopen fm categories dataset_type img_id' r fs' = (e', fs2)"
    by (cases "convert_row urlopen fm categories dataset_type img_id' r fs'")
  have "e = e'"
    using c1 c2 fst_convert_row [of urlopen fm categories dataset_type img_id r fs]
      fst_convert_row [of urlopen fm categories dataset_type img_id' r fs']
    by simp
  with c1 c2 Cons.IH [of "Suc img_id" fs1 "Suc img_id'" fs2] show ?case
    by (cases e') auto
qed

lemma create_dataset_append:
  assumes "fst (create_dataset urlopen fm fs pre categories dataset_type) = None"
  shows "create_dataset urlopen fm fs (pre @ post) categories dataset_type =
    convert_rows urlopen fm categories dataset_type (length pre) post
      (snd (create_dataset urlopen fm fs pre categories dataset_type))"
  using assms
  by (auto simp: create_dataset_def convert_rows_append split: prod.splits option.splits)

lemma three_line_row_rows:
  "write_annotations exact [''Jeans'', ''Tops''] (annotation three_line_row) [] =
     (None, ''1 0.5 0.5 1.0 1.0'' @ [newline] @ ''0 0.5 0.5 1.0 1.0'' @ [newline] @
            ''1 0.5 0.5 1.0 1.0'' @ [newline])"
  by (simp add: three_line_row_def box_annotation_def make_bbox_def Let_def format_bbox_def
      short_decimal_examples str_nat_eval)

lemma one_line_row_rows:
  "write_annotations exact [''Jeans'', ''Tops''] (annotation one_line_row) [] =
     (None, ''1 0.5 0.5 1.0 1.0'' @ [newline])"
  by (simp add: one_line_row_def box_annotation_def make_bbox_def Let_def format_bbox_def
      short_decimal_examples str_nat_eval)

lemma example_contents_lines:
  "content three_line_row = ''http://host/6''" "content one_line_row = ''http://host/7''"
  by (simp_all add: three_line_row_def one_line_row_def)

lemma bare_rows_converted:
  "create_dataset every_url exact empty_fs [bare_row] [''Jeans'', ''Tops''] ''train'' =
   (None,
    \<lparr>dirs = {''clothing'', ''clothing/images'', ''clothing/images/train'',
             ''clothing/labels'', ''clothing/labels/train''},
     files = [''clothing/images/train/0.jpeg'' \<mapsto> ''JPEG of http://host/1'',
              ''clothing/labels/train/0.txt'' \<mapsto> []]\<rparr>)"
  "fst (create_dataset every_url exact empty_fs [bare_row, bare_row] [''Jeans'', ''Tops''] ''train'')
     = None"
  by (simp_all add: create_dataset_def convert_row_fetched every_url_def example_contents
      bare_row_rows example_paths write_file_def mkdir_def
      empty_fs_def images_path_def labels_path_def insert_commute)

section \<open>The claims\<close>

text \<open>
  C1 (as stated, refuted). With the corners given as \<open>(0.3, 0.6)\<close>, \<open>(0.1, 0.2)\<close> the box
  is not the box of \<open>(0.1, 0.2)\<close>, \<open>(0.3, 0.6)\<close>: in exact arithmetic the width is
  \<open>-0.2\<close> instead of \<open>0.2\<close> and the height \<open>-0.4\<close> instead of \<open>0.4\<close>, and the written
  rows differ. The same happens with the corners \<open>(1, 1)\<close>, \<open>(0, 0)\<close>, where every
  intermediate result is a double and exact arithmetic is Python's.
\<close>

theorem swapped_corners_counterexample:
  "make_bbox exact 0 \<lparr>pt_x = 0.3, pt_y = 0.6\<rparr> \<lparr>pt_x = 0.1, pt_y = 0.2\<rparr>
     \<noteq> make_bbox exact 0 \<lparr>pt_x = 0.1, pt_y = 0.2\<rparr> \<lparr>pt_x = 0.3, pt_y = 0.6\<rparr>
   \<and> make_bbox exact 0 \<lparr>pt_x = 0.3, pt_y = 0.6\<rparr> \<lparr>pt_x = 0.1, pt_y = 0.2\<rparr>
     = \<lparr>class_index = 0, bbox_x_center = 0.2, bbox_y_center = 0.4,
        bbox_width = - 0.2, bbox_height = - 0.4\<rparr>
   \<and> make_bbox exact 0 \<lparr>pt_x = 0.1, pt_y = 0.2\<rparr> \<lparr>pt_x = 0.3, pt_y = 0.6\<rparr>
     = \<lparr>class_index = 0, bbox_x_center = 0.2, bbox_y_center = 0.4,
        bbox_width = 0.2, bbox_height = 0.4\<rparr>
   \<and> format_bbox exact (make_bbox exact 0 \<lparr>pt_x = 0.3, pt_y = 0.6\<rparr> \<lparr>pt_x = 0.1, pt_y = 0.2\<rparr>)
     = ''0 0.2 0.4 -0.2 -0.4'' @ [newline]
   \<and> format_bbox exact (make_bbox exact 0 \<lparr>pt_x = 0.1, pt_y = 0.2\<rparr> \<lparr>pt_x = 0.3, pt_y = 0.6\<rparr>)
     = ''0 0.2 0.4 0.2 0.4'' @ [newline]
   \<and> format_bbox exact (make_bbox exact 0 \<lparr>pt_x = 1, pt_y = 1\<rparr> \<lparr>pt_x = 0, pt_y = 0\<rparr>)
     = ''0 0.5 0.5 -1.0 -1.0'' @ [newline]
   \<and> format_bbox exact (make_bbox exact 0 \<lparr>pt_x = 0, pt_y = 0\<rparr> \<lparr>pt_x = 1, pt_y = 1\<rparr>)
     = ''0 0.5 0.5 1.0 1.0'' @ [newline]"
proof -
  have swapped: "make_bbox exact 0 \<lparr>pt_x = 0.3, pt_y = 0.6\<rparr> \<lparr>pt_x = 0.1, pt_y = 0.2\<rparr>
     = \<lparr>class_index = 0, bbox_x_center = 0.2, bbox_y_center = 0.4,
        bbox_width = - 0.2, bbox_height = - 0.4\<rparr>"
    by (simp add: make_bbox_def Let_def)
  have ordered: "make_bbox exact 0 \<lparr>pt_x = 0.1, pt_y = 0.2\<rparr> \<lparr>pt_x = 0.3, pt_y = 0.6\<rparr>
     = \<lparr>class_index = 0, bbox_x_center = 0.2, bbox_y_center = 0.4,
        bbox_width = 0.2, bbox_height = 0.4\<rparr>"
    by (simp add: make_bbox_def Let_def)
  have texts: "short_decimal (1/5) = ''0.2''" "short_decimal (2/5) = ''0.4''"
    "short_decimal (- (1/5)) = ''-0.2''" "short_decimal (- (2/5)) = ''-0.4''"
    by (simp_all add: short_decimal_def str_nat_eval)
  have unit: "format_bbox exact (make_bbox exact 0 \<lparr>pt_x = 1, pt_y = 1\<rparr> \<lparr>pt_x = 0, pt_y = 0\<rparr>)
     = ''0 0.5 0.5 -1.0 -1.0'' @ [newline]"
    "format_bbox exact (make_bbox exact 0 \<lparr>pt_x = 0, pt_y = 0\<rparr> \<lparr>pt_x = 1, pt_y = 1\<rparr>)
     = ''0 0.5 0.5 1.0 1.0'' @ [newline]"
    by (simp_all add: make_bbox_def Let_def format_bbox_def short_decimal_examples str_nat_eval)
  show ?thesis
    unfolding swapped ordered unit
    by (simp add: format_bbox_def texts str_nat_eval)
qed

text \<open>
  C1 (amended). The function takes the corners in the order given and applies no minimum
  or maximum. With a rounding that keeps the sign, as rounding to the nearest double
  does, swapping the two corners keeps the category index and negates the width and the
  height, so the two boxes can only be the same when both sizes are zero. In exact
  arithmetic the centre is the same for both orders, and the boxes are the same exactly
  when the two corners coincide.
\<close>

theorem make_bbox_swapped_corners:
  assumes "binary64_rounding (fl_round fm)"
  shows "class_index (make_bbox fm c p2 p1) = class_index (make_bbox fm c p1 p2)
    \<and> bbox_width (make_bbox fm c p2 p1) = - bbox_width (make_bbox fm c p1 p2)
    \<and> bbox_height (make_bbox fm c p2 p1) = - bbox_height (make_bbox fm c p1 p2)
    \<and> (make_bbox fm c p2 p1 = make_bbox fm c p1 p2 \<longrightarrow>
          bbox_width (make_bbox fm c p1 p2) = 0 \<and> bbox_height (make_bbox fm c p1 p2) = 0)
    \<and> ((\<forall>v. fl_round fm v = v) \<longrightarrow>
          bbox_x_center (make_bbox fm c p2 p1) = bbox_x_center (make_bbox fm c p1 p2)
        \<and> bbox_y_center (make_bbox fm c p2 p1) = bbox_y_center (make_bbox fm c p1 p2)
        \<and> (make_bbox fm c p2 p1 = make_bbox fm c p1 p2
             \<longleftrightarrow> pt_x p1 = pt_x p2 \<and> pt_y p1 = pt_y p2))"
proof -
  have odd: "fl_round fm (a - b) = - fl_round fm (b - a)" for a b
    using binary64_rounding_odd [OF assms, of "b - a"] by simp
  have w: "bbox_width (make_bbox fm c p2 p1) = - bbox_width (make_bbox fm c p1 p2)"
    and h: "bbox_height (make_bbox fm c p2 p1) = - bbox_height (make_bbox fm c p1 p2)"
    by (simp_all add: make_bbox_def Let_def odd [of "pt_x p1"] odd [of "pt_y p1"])
  have i: "class_index (make_bbox fm c p2 p1) = class_index (make_bbox fm c p1 p2)"
    by (simp add: make_bbox_def Let_def)
  have z: "make_bbox fm c p2 p1 = make_bbox fm c p1 p2 \<longrightarrow>
          bbox_width (make_bbox fm c p1 p2) = 0 \<and> bbox_height (make_bbox fm c p1 p2) = 0"
    using w h by auto
  have e: "(\<forall>v. fl_round fm v = v) \<longrightarrow>
          bbox_x_center (make_bbox fm c p2 p1) = bbox_x_center (make_bbox fm c p1 p2)
        \<and> bbox_y_center (make_bbox fm c p2 p1) = bbox_y_center (make_bbox fm c p1 p2)
        \<and> (make_bbox fm c p2 p1 = make_bbox fm c p1 p2
             \<longleftrightarrow> pt_x p1 = pt_x p2 \<and> pt_y p1 = pt_y p2)"
    by (auto simp: make_bbox_def Let_def field_simps)
  from i w h z e show ?thesis
    by (intro conjI)
qed

theorem make_bbox_swapped_corners_witness:
  "binary64_rounding (fl_round exact)
   \<and> make_bbox exact 1 \<lparr>pt_x = 1, pt_y = 1\<rparr> \<lparr>pt_x = 0, pt_y = 0\<rparr>
     = \<lparr>class_index = 1, bbox_x_center = 1/2, bbox_y_center = 1/2, bbox_width = - 1, bbox_height = - 1\<rparr>
   \<and> make_bbox exact 1 \<lparr>pt_x = 0, pt_y = 0\<rparr> \<lparr>pt_x = 1, pt_y = 1\<rparr>
     = \<lparr>class_index = 1, bbox_x_center = 1/2, bbox_y_center = 1/2, bbox_width = 1, bbox_height = 1\<rparr>
   \<and> bbox_width (make_bbox exact 1 \<lparr>pt_x = 1, pt_y = 1\<rparr> \<lparr>pt_x = 0, pt_y = 0\<rparr>)
     = - bbox_width (make_bbox exact 1 \<lparr>pt_x = 0, pt_y = 0\<rparr> \<lparr>pt_x = 1, pt_y = 1\<rparr>)"
proof -
  note t = make_bbox_swapped_corners [OF binary64_rounding_exact,
      of 1 "\<lparr>pt_x = 1, pt_y = 1\<rparr>" "\<lparr>pt_x = 0, pt_y = 0\<rparr>"]
  have b: "make_bbox exact 1 \<lparr>pt_x = 1, pt_y = 1\<rparr> \<lparr>pt_x = 0, pt_y = 0\<rparr>
     = \<lparr>class_index = 1, bbox_x_center = 1/2, bbox_y_center = 1/2, bbox_width = - 1, bbox_height = - 1\<rparr>"
    "make_bbox exact 1 \<lparr>pt_x = 0, pt_y = 0\<rparr> \<lparr>pt_x = 1, pt_y = 1\<rparr>
     = \<lparr>class_index = 1, bbox_x_center = 1/2, bbox_y_center = 1/2, bbox_width = 1, bbox_height = 1\<rparr>"
    by (simp_all add: make_bbox_def)
  from binary64_rounding_exact b t [THEN conjunct2, THEN conjunct1] show ?thesis
    by (intro conjI)
qed




text \<open>
  C3 (as stated, refuted). In the batch of three rows the picture of the second cannot
  be fetched. The call ends with the exception: the third row, whose picture can be
  fetched, is never converted (neither its picture nor its label file exists), and the
  function returns no report.
\<close>

theorem failed_fetch_counterexample:
  "fst (create_dataset (unreachable_url ''http://host/1'') exact empty_fs
      [tops_row, bare_row, jeans_tops_row] [''Jeans'', ''Tops''] ''train'') = Some URLError
   \<and> unreachable_url ''http://host/1'' (content jeans_tops_row) = Some ''JPEG of http://host/2''
   \<and> files (snd (create_dataset (unreachable_url ''http://host/1'') exact empty_fs
      [tops_row, bare_row, jeans_tops_row] [''Jeans'', ''Tops''] ''train''))
      ''clothing/labels/train/2.txt'' = None
   \<and> files (snd (create_dataset (unreachable_url ''http://host/1'') exact empty_fs
      [tops_row, bare_row, jeans_tops_row] [''Jeans'', ''Tops''] ''train''))
      ''clothing/images/train/2.jpeg'' = None"
  by (simp add: failed_fetch_batch unreachable_url_def every_url_def example_contents)

text \<open>
  C3 (amended). When the picture of a row cannot be fetched, after rows that were
  converted without an exception, the call ends with that exception: the result is the
  exception together with the files as the rows before left them. Nothing is written for
  the row or for any row after it, whatever those rows are.
\<close>

theorem failed_fetch_ends_the_batch:
  assumes "fst (create_dataset urlopen fm fs pre categories dataset_type) = None"
    and "urlopen (content r) = None"
  shows "create_dataset urlopen fm fs (pre @ r # post) categories dataset_type =
      (Some URLError, snd (create_dataset urlopen fm fs pre categories dataset_type))
    \<and> (\<forall>j \<ge> length pre.
        files (snd (create_dataset urlopen fm fs (pre @ r # post) categories dataset_type))
          (label_file_path dataset_type j) = files fs (label_file_path dataset_type j)
      \<and> files (snd (create_dataset urlopen fm fs (pre @ r # post) categories dataset_type))
          (image_file_path dataset_type j) = files fs (image_file_path dataset_type j))"
proof -
  have "create_dataset urlopen fm fs (pre @ r # post) categories dataset_type =
      (Some URLError, snd (create_dataset urlopen fm fs pre categories dataset_type))"
    using create_dataset_step [OF assms(1), of r post] assms(2)
    by (simp add: convert_row_failed_fetch)
  then show ?thesis
    by (simp add: create_dataset_untouched_later)
qed

theorem failed_fetch_ends_the_batch_witness:
  "fst (create_dataset (unreachable_url ''http://host/1'') exact empty_fs [tops_row]
      [''Jeans'', ''Tops''] ''train'') = None
   \<and> unreachable_url ''http://host/1'' (content bare_row) = None
   \<and> create_dataset (unreachable_url ''http://host/1'') exact empty_fs
      [tops_row, bare_row, jeans_tops_row] [''Jeans'', ''Tops''] ''train'' =
     (Some URLError, snd (create_dataset (unreachable_url ''http://host/1'') exact empty_fs
      [tops_row] [''Jeans'', ''Tops''] ''train''))
   \<and> files (snd (create_dataset (unreachable_url ''http://host/1'') exact empty_fs
      [tops_row, bare_row, jeans_tops_row] [''Jeans'', ''Tops''] ''train''))
      (label_file_path ''train'' 2) = None"
proof -
  have h1: "fst (create_dataset (unreachable_url ''http://host/1'') exact empty_fs [tops_row]
      [''Jeans'', ''Tops''] ''train'') = None"
    by (simp add: create_dataset_def convert_row_fetched unreachable_url_def every_url_def
        example_contents tops_row_rows)
  have h2: "unreachable_url ''http://host/1'' (content bare_row) = None"
    by (simp add: unreachable_url_def example_contents)
  note t = failed_fetch_ends_the_batch [OF h1 h2, of "[jeans_tops_row]"]
  from t [THEN conjunct2] have "files (snd (create_dataset (unreachable_url ''http://host/1'')
      exact empty_fs ([tops_row] @ bare_row # [jeans_tops_row]) [''Jeans'', ''Tops''] ''train''))
      (label_file_path ''train'' 2) = files empty_fs (label_file_path ''train'' 2)"
    by simp
  with t [THEN conjunct1] h1 h2 show ?thesis
    by (simp add: empty_fs_def)
qed

text \<open>
  C4. The category list holds exactly the label strings that occur in the label array of
  some annotation of some row, each once, in ascending order: it is the sorted list of
  that set. So two inputs in which the same strings occur (the same rows in another order
  are such inputs) give the same list, whatever order each set is listed in, and
  \<^verbatim>\<open>categories.index\<close> of the \<open>i\<close>-th entry of the list is \<open>i\<close>.
\<close>

theorem build_categories_deterministic:
  assumes "set_iteration order1" and "set_iteration order2"
    and "(\<Union>c \<in> set clothing1. \<Union>a \<in> set (annotation c). set (label a))
       = (\<Union>c \<in> set clothing2. \<Union>a \<in> set (annotation c). set (label a))"
  shows "build_categories order1 clothing1 = build_categories order2 clothing2
    \<and> set (build_categories order1 clothing1)
        = (\<Union>c \<in> set clothing1. \<Union>a \<in> set (annotation c). set (label a))
    \<and> build_categories order1 clothing1
        = sorted_list_of_set (\<Union>c \<in> set clothing1. \<Union>a \<in> set (annotation c). set (label a))
    \<and> sorted (build_categories order1 clothing1)
    \<and> distinct (build_categories order1 clothing1)
    \<and> (\<forall>i < length (build_categories order1 clothing1).
          index (build_categories order1 clothing1) (build_categories order1 clothing1 ! i) = Some i)"
proof -
  let ?labels = "\<lambda>clothing. \<Union>c \<in> set clothing. \<Union>a \<in> set (annotation c). set (label a)"
  have l: "set (collect_labels [] clothing) = ?labels clothing" for clothing
    by (simp add: set_collect_labels)
  have b1: "build_categories order1 clothing1 = sorted_list_of_set (?labels clothing1)"
    using assms(1) by (simp add: build_categories_sorted_list l)
  have b2: "build_categories order2 clothing2 = sorted_list_of_set (?labels clothing2)"
    using assms(2) by (simp add: build_categories_sorted_list l)
  have f: "finite (?labels clothing1)"
    unfolding l [symmetric] by simp
  have e: "build_categories order1 clothing1 = build_categories order2 clothing2"
    by (simp add: b1 b2 assms(3))
  have s: "set (build_categories order1 clothing1) = ?labels clothing1"
    unfolding b1 using f by simp
  have o: "sorted (build_categories order1 clothing1)"
    and d: "distinct (build_categories order1 clothing1)"
    unfolding b1 by simp_all
  have i: "\<forall>i < length (build_categories order1 clothing1).
          index (build_categories order1 clothing1) (build_categories order1 clothing1 ! i) = Some i"
    using d by (simp add: index_nth_distinct)
  from e s b1 o d i show ?thesis
    by (intro conjI)
qed

theorem build_categories_deterministic_witness:
  "set_iteration remdups \<and> set_iteration (\<lambda>xs. rev (remdups xs))
   \<and> (\<Union>c \<in> set [tops_row, bare_row, jeans_tops_row]. \<Union>a \<in> set (annotation c). set (label a))
     = (\<Union>c \<in> set [jeans_tops_row, tops_row]. \<Union>a \<in> set (annotation c). set (label a))
   \<and> (\<Union>c \<in> set [tops_row, bare_row, jeans_tops_row]. \<Union>a \<in> set (annotation c). set (label a))
     = {''Tops'', ''Jeans''}
   \<and> build_categories remdups [tops_row, bare_row, jeans_tops_row] = [''Jeans'', ''Tops'']
   \<and> build_categories (\<lambda>xs. rev (remdups xs)) [jeans_tops_row, tops_row] = [''Jeans'', ''Tops'']
   \<and> set (build_categories remdups [tops_row, bare_row, jeans_tops_row]) = {''Tops'', ''Jeans''}
   \<and> index [''Jeans'', ''Tops''] ''Tops'' = Some 1"
proof -
  have u1: "(\<Union>c \<in> set [tops_row, bare_row, jeans_tops_row]. \<Union>a \<in> set (annotation c). set (label a))
     = {''Tops'', ''Jeans''}"
    by (auto simp: tops_row_def bare_row_def jeans_tops_row_def box_annotation_def)
  have u2: "(\<Union>c \<in> set [jeans_tops_row, tops_row]. \<Union>a \<in> set (annotation c). set (label a))
     = {''Tops'', ''Jeans''}"
    by (auto simp: tops_row_def jeans_tops_row_def box_annotation_def)
  have s: "(\<Union>c \<in> set [tops_row, bare_row, jeans_tops_row]. \<Union>a \<in> set (annotation c). set (label a))
     = (\<Union>c \<in> set [jeans_tops_row, tops_row]. \<Union>a \<in> set (annotation c). set (label a))"
    unfolding u1 u2 ..
  note t = build_categories_deterministic [OF set_iteration_remdups set_iteration_rev_remdups s]
  have c: "build_categories remdups [tops_row, bare_row, jeans_tops_row] = [''Jeans'', ''Tops'']"
    by (simp add: build_categories_def tops_row_def bare_row_def jeans_tops_row_def box_annotation_def)
  have c': "build_categories (\<lambda>xs. rev (remdups xs)) [jeans_tops_row, tops_row] = [''Jeans'', ''Tops'']"
    using t [THEN conjunct1] c by simp
  have m: "set (build_categories remdups [tops_row, bare_row, jeans_tops_row]) = {''Tops'', ''Jeans''}"
    using t [THEN conjunct2, THEN conjunct1] u1 by simp
  have i: "index [''Jeans'', ''Tops''] ''Tops'' = Some 1"
    by simp
  from set_iteration_remdups set_iteration_rev_remdups s u1 c c' m i show ?thesis
    by (intro conjI)
qed

text \<open>
  C5. For corners given in order (\<open>x1 \<le> x2\<close> and \<open>y1 \<le> y2\<close>) the box has
  \<open>width = x2 - x1\<close>, \<open>height = y2 - y1\<close>, \<open>center_x = x1 + width / 2\<close> and
  \<open>center_y = y1 + height / 2\<close>, each operation being Python's, that is, followed by its
  rounding; both sizes are non-negative. In exact arithmetic these are the equations as
  written, and the box reaches from the first corner to the second. For the corners
  \<open>(0.1, 0.2)\<close>, \<open>(0.3, 0.6)\<close>, read with an error of at most \<open>10^-12\<close> each, rounding to
  the nearest double gives a centre within \<open>10^-9\<close> of \<open>(0.2, 0.4)\<close>, and a width and a
  height within \<open>10^-9\<close> of \<open>0.2\<close> and \<open>0.4\<close>.
\<close>

theorem make_bbox_ordered_corners:
  assumes "binary64_rounding (fl_round fm)"
    and "pt_x p1 \<le> pt_x p2" and "pt_y p1 \<le> pt_y p2"
  shows "bbox_width (make_bbox fm c p1 p2) = fl_round fm (pt_x p2 - pt_x p1)
    \<and> bbox_height (make_bbox fm c p1 p2) = fl_round fm (pt_y p2 - pt_y p1)
    \<and> bbox_x_center (make_bbox fm c p1 p2)
        = fl_round fm (pt_x p1 + fl_round fm (bbox_width (make_bbox fm c p1 p2) / 2))
    \<and> bbox_y_center (make_bbox fm c p1 p2)
        = fl_round fm (pt_y p1 + fl_round fm (bbox_height (make_bbox fm c p1 p2) / 2))
    \<and> class_index (make_bbox fm c p1 p2) = c
    \<and> 0 \<le> bbox_width (make_bbox fm c p1 p2) \<and> 0 \<le> bbox_height (make_bbox fm c p1 p2)
    \<and> ((\<forall>v. fl_round fm v = v) \<longrightarrow>
          bbox_width (make_bbox fm c p1 p2) = pt_x p2 - pt_x p1
        \<and> bbox_height (make_bbox fm c p1 p2) = pt_y p2 - pt_y p1
        \<and> bbox_x_center (make_bbox fm c p1 p2) = pt_x p1 + bbox_width (make_bbox fm c p1 p2) / 2
        \<and> bbox_y_center (make_bbox fm c p1 p2) = pt_y p1 + bbox_height (make_bbox fm c p1 p2) / 2
        \<and> bbox_x_center (make_bbox fm c p1 p2) + bbox_width (make_bbox fm c p1 p2) / 2 = pt_x p2
        \<and> bbox_y_center (make_bbox fm c p1 p2) + bbox_height (make_bbox fm c p1 p2) / 2 = pt_y p2)
    \<and> (\<bar>pt_x p1 - 0.1\<bar> \<le> 1 / 10 ^ 12 \<and> \<bar>pt_y p1 - 0.2\<bar> \<le> 1 / 10 ^ 12
        \<and> \<bar>pt_x p2 - 0.3\<bar> \<le> 1 / 10 ^ 12 \<and> \<bar>pt_y p2 - 0.6\<bar> \<le> 1 / 10 ^ 12 \<longrightarrow>
          \<bar>bbox_x_center (make_bbox fm c p1 p2) - 0.2\<bar> \<le> 1 / 10 ^ 9
        \<and> \<bar>bbox_y_center (make_bbox fm c p1 p2) - 0.4\<bar> \<le> 1 / 10 ^ 9
        \<and> \<bar>bbox_width (make_bbox fm c p1 p2) - 0.2\<bar> \<le> 1 / 10 ^ 9
        \<and> \<bar>bbox_height (make_bbox fm c p1 p2) - 0.4\<bar> \<le> 1 / 10 ^ 9)"
proof -
  let ?b = "make_bbox fm c p1 p2"
  note r = assms(1)
  have f1: "bbox_width ?b = fl_round fm (pt_x p2 - pt_x p1)"
    and f2: "bbox_height ?b = fl_round fm (pt_y p2 - pt_y p1)"
    and f3: "bbox_x_center ?b = fl_round fm (pt_x p1 + fl_round fm (bbox_width ?b / 2))"
    and f4: "bbox_y_center ?b = fl_round fm (pt_y p1 + fl_round fm (bbox_height ?b / 2))"
    and f5: "class_index ?b = c"
    by (simp_all add: make_bbox_def Let_def)
  have f6: "0 \<le> bbox_width ?b" and f7: "0 \<le> bbox_height ?b"
    unfolding f1 f2 using assms(2,3) by (simp_all add: binary64_rounding_nonneg [OF r])
  have f8: "(\<forall>v. fl_round fm v = v) \<longrightarrow>
          bbox_width ?b = pt_x p2 - pt_x p1
        \<and> bbox_height ?b = pt_y p2 - pt_y p1
        \<and> bbox_x_center ?b = pt_x p1 + bbox_width ?b / 2
        \<and> bbox_y_center ?b = pt_y p1 + bbox_height ?b / 2
        \<and> bbox_x_center ?b + bbox_width ?b / 2 = pt_x p2
        \<and> bbox_y_center ?b + bbox_height ?b / 2 = pt_y p2"
    by (simp add: make_bbox_def Let_def)
  have f9: "\<bar>bbox_x_center ?b - 0.2\<bar> \<le> 1 / 10 ^ 9 \<and> \<bar>bbox_y_center ?b - 0.4\<bar> \<le> 1 / 10 ^ 9
        \<and> \<bar>bbox_width ?b - 0.2\<bar> \<le> 1 / 10 ^ 9 \<and> \<bar>bbox_height ?b - 0.4\<bar> \<le> 1 / 10 ^ 9"
    if near: "\<bar>pt_x p1 - 0.1\<bar> \<le> 1 / 10 ^ 12" "\<bar>pt_y p1 - 0.2\<bar> \<le> 1 / 10 ^ 12"
      "\<bar>pt_x p2 - 0.3\<bar> \<le> 1 / 10 ^ 12" "\<bar>pt_y p2 - 0.6\<bar> \<le> 1 / 10 ^ 12"
  proof -
    note w = binary64_rounding_near [OF r near_sub [OF near(1,3)]]
    note cx = binary64_rounding_near [OF r near_add [OF near(1)
          binary64_rounding_near [OF r near_half [OF w]]]]
    note h = binary64_rounding_near [OF r near_sub [OF near(2,4)]]
    note cy = binary64_rounding_near [OF r near_add [OF near(2)
          binary64_rounding_near [OF r near_half [OF h]]]]
    have "\<bar>bbox_width ?b - 0.2\<bar> \<le> 1 / 10 ^ 9"
      unfolding f1 by (rule near_weaken [OF w]) simp_all
    moreover have "\<bar>bbox_height ?b - 0.4\<bar> \<le> 1 / 10 ^ 9"
      unfolding f2 by (rule near_weaken [OF h]) simp_all
    moreover have "\<bar>bbox_x_center ?b - 0.2\<bar> \<le> 1 / 10 ^ 9"
      unfolding f3 f1 by (rule near_weaken [OF cx]) simp_all
    moreover have "\<bar>bbox_y_center ?b - 0.4\<bar> \<le> 1 / 10 ^ 9"
      unfolding f4 f2 by (rule near_weaken [OF cy]) simp_all
    ultimately show ?thesis
      by (intro conjI)
  qed
  from f1 f2 f3 f4 f5 f6 f7 f8 f9 show ?thesis
    by (intro conjI impI) simp_all
qed

theorem make_bbox_ordered_corners_witness:
  "binary64_rounding (fl_round exact)
   \<and> pt_x \<lparr>pt_x = 0.1, pt_y = 0.2\<rparr> \<le> pt_x \<lparr>pt_x = 0.3, pt_y = 0.6\<rparr>
   \<and> pt_y \<lparr>pt_x = 0.1, pt_y = 0.2\<rparr> \<le> pt_y \<lparr>pt_x = 0.3, pt_y = 0.6\<rparr>
   \<and> \<bar>bbox_x_center (make_bbox exact 5 \<lparr>pt_x = 0.1, pt_y = 0.2\<rparr> \<lparr>pt_x = 0.3, pt_y = 0.6\<rparr>) - 0.2\<bar> \<le> 1 / 10 ^ 9
   \<and> \<bar>bbox_y_center (make_bbox exact 5 \<lparr>pt_x = 0.1, pt_y = 0.2\<rparr> \<lparr>pt_x = 0.3, pt_y = 0.6\<rparr>) - 0.4\<bar> \<le> 1 / 10 ^ 9
   \<and> \<bar>bbox_width (make_bbox exact 5 \<lparr>pt_x = 0.1, pt_y = 0.2\<rparr> \<lparr>pt_x = 0.3, pt_y = 0.6\<rparr>) - 0.2\<bar> \<le> 1 / 10 ^ 9
   \<and> \<bar>bbox_height (make_bbox exact 5 \<lparr>pt_x = 0.1, pt_y = 0.2\<rparr> \<lparr>pt_x = 0.3, pt_y = 0.6\<rparr>) - 0.4\<bar> \<le> 1 / 10 ^ 9
   \<and> make_bbox exact 5 \<lparr>pt_x = 0.1, pt_y = 0.2\<rparr> \<lparr>pt_x = 0.3, pt_y = 0.6\<rparr>
       = \<lparr>class_index = 5, bbox_x_center = 0.2, bbox_y_center = 0.4,
          bbox_width = 0.2, bbox_height = 0.4\<rparr>"
proof -
  let ?p1 = "\<lparr>pt_x = 0.1, pt_y = 0.2\<rparr>" and ?p2 = "\<lparr>pt_x = 0.3, pt_y = 0.6\<rparr>"
  have h2: "pt_x ?p1 \<le> pt_x ?p2" and h3: "pt_y ?p1 \<le> pt_y ?p2"
    by simp_all
  have near: "\<bar>pt_x ?p1 - 0.1\<bar> \<le> 1 / 10 ^ 12 \<and> \<bar>pt_y ?p1 - 0.2\<bar> \<le> 1 / 10 ^ 12
        \<and> \<bar>pt_x ?p2 - 0.3\<bar> \<le> 1 / 10 ^ 12 \<and> \<bar>pt_y ?p2 - 0.6\<bar> \<le> 1 / 10 ^ 12"
    by simp
  note t = make_bbox_ordered_corners [OF binary64_rounding_exact h2 h3, of 5]
  from t near have "\<bar>bbox_x_center (make_bbox exact 5 ?p1 ?p2) - 0.2\<bar> \<le> 1 / 10 ^ 9
        \<and> \<bar>bbox_y_center (make_bbox exact 5 ?p1 ?p2) - 0.4\<bar> \<le> 1 / 10 ^ 9
        \<and> \<bar>bbox_width (make_bbox exact 5 ?p1 ?p2) - 0.2\<bar> \<le> 1 / 10 ^ 9
        \<and> \<bar>bbox_height (make_bbox exact 5 ?p1 ?p2) - 0.4\<bar> \<le> 1 / 10 ^ 9"
    by blast
  moreover have "make_bbox exact 5 ?p1 ?p2
       = \<lparr>class_index = 5, bbox_x_center = 0.2, bbox_y_center = 0.4,
          bbox_width = 0.2, bbox_height = 0.4\<rparr>"
    by (simp add: make_bbox_def Let_def)
  ultimately show ?thesis
    using binary64_rounding_exact h2 h3 by blast
qed

text \<open>
  C6 (as stated, refuted). The first annotation of the row has height \<open>0\<close>, the second
  has the corners the other way round and so width and height \<open>-1\<close>. No exception is
  raised, nothing is skipped, and both rows are in the label file.
\<close>

theorem degenerate_box_counterexample:
  "bbox_height (make_bbox exact 1 \<lparr>pt_x = 0, pt_y = 1/2\<rparr> \<lparr>pt_x = 1, pt_y = 1/2\<rparr>) = 0
   \<and> bbox_width (make_bbox exact 0 \<lparr>pt_x = 1, pt_y = 1\<rparr> \<lparr>pt_x = 0, pt_y = 0\<rparr>) = - 1
   \<and> annotation degenerate_row =
       [box_annotation [''Tops''] (0, 1/2) (1, 1/2), box_annotation [''Jeans''] (1, 1) (0, 0)]
   \<and> fst (create_dataset every_url exact empty_fs [degenerate_row] [''Jeans'', ''Tops''] ''train'')
       = None
   \<and> files (snd (create_dataset every_url exact empty_fs [degenerate_row]
        [''Jeans'', ''Tops''] ''train'')) ''clothing/labels/train/0.txt''
      = Some (''1 0.5 0.5 1.0 0.0'' @ [newline] @ ''0 0.5 0.5 -1.0 -1.0'' @ [newline])"
proof -
  have b: "bbox_height (make_bbox exact 1 \<lparr>pt_x = 0, pt_y = 1/2\<rparr> \<lparr>pt_x = 1, pt_y = 1/2\<rparr>) = 0"
    "bbox_width (make_bbox exact 0 \<lparr>pt_x = 1, pt_y = 1\<rparr> \<lparr>pt_x = 0, pt_y = 0\<rparr>) = - 1"
    by (simp_all add: make_bbox_def)
  have a: "annotation degenerate_row =
       [box_annotation [''Tops''] (0, 1/2) (1, 1/2), box_annotation [''Jeans''] (1, 1) (0, 0)]"
    by (simp add: degenerate_row_def)
  have c: "fst (create_dataset every_url exact empty_fs [degenerate_row] [''Jeans'', ''Tops''] ''train'')
       = None"
    "files (snd (create_dataset every_url exact empty_fs [degenerate_row]
        [''Jeans'', ''Tops''] ''train'')) ''clothing/labels/train/0.txt''
      = Some (''1 0.5 0.5 1.0 0.0'' @ [newline] @ ''0 0.5 0.5 -1.0 -1.0'' @ [newline])"
    by (simp_all add: create_dataset_def convert_row_fetched every_url_def degenerate_row_rows
        example_paths write_file_def)
  from b a c show ?thesis
    by (intro conjI)
qed

text \<open>
  C6 (amended). The function has no check of the geometry. For a row whose picture is
  fetched, after rows that were converted without an exception, in which every annotation
  has two points and only labels of the category list, no exception is raised and the
  label file holds one row for every label of every annotation, in order, with the width
  \<open>x2 - x1\<close> and the height \<open>y2 - y1\<close> of the points as given (as Python computes
  them): zero and negative sizes are written like any other.
\<close>

theorem no_geometry_check:
  assumes "fst (create_dataset urlopen fm fs pre categories dataset_type) = None"
    and "urlopen (content r) = Some img"
    and "\<forall>a \<in> set (annotation r).
          length (points a) = 2 \<and> (\<forall>l \<in> set (label a). l \<in> set categories)"
  shows "fst (create_dataset urlopen fm fs (pre @ [r]) categories dataset_type) = None
    \<and> files (snd (create_dataset urlopen fm fs (pre @ r # post) categories dataset_type))
        (label_file_path dataset_type (length pre))
      = Some (concat (map (\<lambda>a. concat (map (\<lambda>l. format_bbox fm
          (make_bbox fm (the (index categories l)) (points a ! 0) (points a ! 1))) (label a)))
          (annotation r)))
    \<and> (\<forall>a \<in> set (annotation r). \<forall>l \<in> set (label a).
          bbox_width (make_bbox fm (the (index categories l)) (points a ! 0) (points a ! 1))
            = fl_round fm (pt_x (points a ! 1) - pt_x (points a ! 0))
        \<and> bbox_height (make_bbox fm (the (index categories l)) (points a ! 0) (points a ! 1))
            = fl_round fm (pt_y (points a ! 1) - pt_y (points a ! 0)))"
proof -
  note w = write_annotations_known [OF assms(3), of fm "[]"]
  have f1: "fst (create_dataset urlopen fm fs (pre @ [r]) categories dataset_type) = None"
    using row_in_batch(3) [OF assms(1,2)] w by simp
  have f2: "files (snd (create_dataset urlopen fm fs (pre @ r # post) categories dataset_type))
        (label_file_path dataset_type (length pre))
      = Some (concat (map (\<lambda>a. concat (map (\<lambda>l. format_bbox fm
          (make_bbox fm (the (index categories l)) (points a ! 0) (points a ! 1))) (label a)))
          (annotation r)))"
    using row_in_batch(1) [OF assms(1,2), of post] w by simp
  have f3: "\<forall>a \<in> set (annotation r). \<forall>l \<in> set (label a).
          bbox_width (make_bbox fm (the (index categories l)) (points a ! 0) (points a ! 1))
            = fl_round fm (pt_x (points a ! 1) - pt_x (points a ! 0))
        \<and> bbox_height (make_bbox fm (the (index categories l)) (points a ! 0) (points a ! 1))
            = fl_round fm (pt_y (points a ! 1) - pt_y (points a ! 0))"
    by (simp add: make_bbox_def Let_def)
  from f1 f2 f3 show ?thesis
    by (intro conjI)
qed

theorem no_geometry_check_witness:
  "fst (create_dataset every_url exact empty_fs [] [''Jeans'', ''Tops''] ''train'') = None
   \<and> every_url (content degenerate_row) = Some ''JPEG of http://host/4''
   \<and> annotation degenerate_row =
       [box_annotation [''Tops''] (0, 1/2) (1, 1/2), box_annotation [''Jeans''] (1, 1) (0, 0)]
   \<and> fst (create_dataset every_url exact empty_fs [degenerate_row] [''Jeans'', ''Tops''] ''train'')
       = None
   \<and> files (snd (create_dataset every_url exact empty_fs [degenerate_row]
        [''Jeans'', ''Tops''] ''train'')) ''clothing/labels/train/0.txt''
      = Some (''1 0.5 0.5 1.0 0.0'' @ [newline] @ ''0 0.5 0.5 -1.0 -1.0'' @ [newline])"
proof -
  have h1: "fst (create_dataset every_url exact empty_fs [] [''Jeans'', ''Tops''] ''train'') = None"
    by (simp add: no_rows_converted)
  have h2: "every_url (content degenerate_row) = Some ''JPEG of http://host/4''"
    by (simp add: every_url_def example_contents_more)
  have a: "annotation degenerate_row =
       [box_annotation [''Tops''] (0, 1/2) (1, 1/2), box_annotation [''Jeans''] (1, 1) (0, 0)]"
    by (simp add: degenerate_row_def)
  have h3: "\<forall>a \<in> set (annotation degenerate_row).
      length (points a) = 2 \<and> (\<forall>l \<in> set (label a). l \<in> set [''Jeans'', ''Tops''])"
    by (simp add: a box_annotation_def)
  note t = no_geometry_check [OF h1 h2 h3, of "[]"]
  have c1: "fst (create_dataset every_url exact empty_fs [degenerate_row] [''Jeans'', ''Tops''] ''train'')
       = None"
    using t [THEN conjunct1] by simp
  have c2: "files (snd (create_dataset every_url exact empty_fs [degenerate_row]
        [''Jeans'', ''Tops''] ''train'')) ''clothing/labels/train/0.txt''
      = Some (''1 0.5 0.5 1.0 0.0'' @ [newline] @ ''0 0.5 0.5 -1.0 -1.0'' @ [newline])"
    using t [THEN conjunct2, THEN conjunct1]
    by (simp add: a box_annotation_def example_paths make_bbox_def Let_def format_bbox_def
        short_decimal_examples str_nat_eval)
  from h1 h2 a c1 c2 show ?thesis
    by (intro conjI)
qed

text \<open>
  C7 (as stated, refuted). The function keeps and returns no count. Called on no row, on
  one row without annotations and on two such rows it gives the caller the same thing, a
  normal return without a value; and after the call on one row the file system holds the
  picture and the empty label file and nothing else, so no count is written either.
\<close>

theorem processed_count_counterexample:
  "annotation bare_row = []
   \<and> fst (create_dataset every_url exact empty_fs [] [''Jeans'', ''Tops''] ''train'') = None
   \<and> fst (create_dataset every_url exact empty_fs [bare_row] [''Jeans'', ''Tops''] ''train'') = None
   \<and> fst (create_dataset every_url exact empty_fs [bare_row, bare_row] [''Jeans'', ''Tops''] ''train'')
       = None
   \<and> files (snd (create_dataset every_url exact empty_fs [bare_row] [''Jeans'', ''Tops''] ''train''))
       = [''clothing/images/train/0.jpeg'' \<mapsto> ''JPEG of http://host/1'',
          ''clothing/labels/train/0.txt'' \<mapsto> []]"
proof -
  have a: "annotation bare_row = []"
    by (simp add: bare_row_def)
  have n: "fst (create_dataset every_url exact empty_fs [] [''Jeans'', ''Tops''] ''train'') = None"
    by (simp add: no_rows_converted)
  have o: "fst (create_dataset every_url exact empty_fs [bare_row] [''Jeans'', ''Tops''] ''train'') = None"
    "files (snd (create_dataset every_url exact empty_fs [bare_row] [''Jeans'', ''Tops''] ''train''))
       = [''clothing/images/train/0.jpeg'' \<mapsto> ''JPEG of http://host/1'',
          ''clothing/labels/train/0.txt'' \<mapsto> []]"
    by (simp_all add: bare_rows_converted(1))
  from a n o(1) bare_rows_converted(2) o(2) show ?thesis
    by (intro conjI)
qed

text \<open>
  C7 (amended). A row without annotations whose picture is fetched, after rows that were
  converted without an exception: its label file exists and is empty, its picture is
  saved, the row raises nothing, and the loop goes on to the following rows with the next
  identifier. The identifier of the row is the number of rows before it. No count of
  processed rows is kept or returned: what the caller gets back, the exception or the
  normal return, is the same as for the batch without the row.
\<close>

theorem row_without_annotations:
  assumes "fst (create_dataset urlopen fm fs pre categories dataset_type) = None"
    and "urlopen (content r) = Some img"
    and "annotation r = []"
  shows "files (snd (create_dataset urlopen fm fs (pre @ r # post) categories dataset_type))
      (label_file_path dataset_type (length pre)) = Some []
    \<and> files (snd (create_dataset urlopen fm fs (pre @ r # post) categories dataset_type))
      (image_file_path dataset_type (length pre)) = Some img
    \<and> fst (create_dataset urlopen fm fs (pre @ [r]) categories dataset_type) = None
    \<and> create_dataset urlopen fm fs (pre @ r # post) categories dataset_type =
      convert_rows urlopen fm categories dataset_type (Suc (length pre)) post
        (write_file (label_file_path dataset_type (length pre)) []
          (write_file (image_file_path dataset_type (length pre)) img
            (snd (create_dataset urlopen fm fs pre categories dataset_type))))
    \<and> fst (create_dataset urlopen fm fs (pre @ r # post) categories dataset_type)
      = fst (create_dataset urlopen fm fs (pre @ post) categories dataset_type)"
proof -
  let ?fs1 = "snd (create_dataset urlopen fm fs pre categories dataset_type)"
  let ?fs2 = "write_file (label_file_path dataset_type (length pre)) []
          (write_file (image_file_path dataset_type (length pre)) img ?fs1)"
  have w: "write_annotations fm categories (annotation r) [] = (None, [])"
    using assms(3) by simp
  from row_in_batch(1,2) [OF assms(1,2), of post] row_in_batch(3) [OF assms(1,2)] w
  have f1: "files (snd (create_dataset urlopen fm fs (pre @ r # post) categories dataset_type))
      (label_file_path dataset_type (length pre)) = Some []"
    and f2: "files (snd (create_dataset urlopen fm fs (pre @ r # post) categories dataset_type))
      (image_file_path dataset_type (length pre)) = Some img"
    and f3: "fst (create_dataset urlopen fm fs (pre @ [r]) categories dataset_type) = None"
    by simp_all
  have f4: "create_dataset urlopen fm fs (pre @ r # post) categories dataset_type =
      convert_rows urlopen fm categories dataset_type (Suc (length pre)) post ?fs2"
    using create_dataset_step [OF assms(1), of r post] assms(2) w
    by (simp add: convert_row_fetched)
  have "create_dataset urlopen fm fs (pre @ post) categories dataset_type =
      convert_rows urlopen fm categories dataset_type (length pre) post ?fs1"
    using assms(1) by (rule create_dataset_append)
  then have f5: "fst (create_dataset urlopen fm fs (pre @ r # post) categories dataset_type)
      = fst (create_dataset urlopen fm fs (pre @ post) categories dataset_type)"
    unfolding f4 by (simp add: fst_convert_rows [of _ _ _ _ "Suc (length pre)" post ?fs2 "length pre" ?fs1])
  from f1 f2 f3 f4 f5 show ?thesis
    by (intro conjI)
qed

theorem row_without_annotations_witness:
  "fst (create_dataset every_url exact empty_fs [tops_row] [''Jeans'', ''Tops''] ''train'') = None
   \<and> every_url (content bare_row) = Some ''JPEG of http://host/1''
   \<and> annotation bare_row = []
   \<and> files (snd (create_dataset every_url exact empty_fs [tops_row, bare_row, jeans_tops_row]
        [''Jeans'', ''Tops''] ''train'')) ''clothing/labels/train/1.txt'' = Some []
   \<and> files (snd (create_dataset every_url exact empty_fs [tops_row, bare_row, jeans_tops_row]
        [''Jeans'', ''Tops''] ''train'')) ''clothing/images/train/1.jpeg'' = Some ''JPEG of http://host/1''
   \<and> fst (create_dataset every_url exact empty_fs [tops_row, bare_row]
        [''Jeans'', ''Tops''] ''train'') = None
   \<and> fst (create_dataset every_url exact empty_fs [tops_row, bare_row, jeans_tops_row]
        [''Jeans'', ''Tops''] ''train'')
     = fst (create_dataset every_url exact empty_fs [tops_row, jeans_tops_row]
        [''Jeans'', ''Tops''] ''train'')"
proof -
  have h1: "fst (create_dataset every_url exact empty_fs [tops_row] [''Jeans'', ''Tops''] ''train'') = None"
    by (simp add: one_row_converted)
  have h2: "every_url (content bare_row) = Some ''JPEG of http://host/1''"
    by (simp add: every_url_def example_contents)
  have h3: "annotation bare_row = []"
    by (simp add: bare_row_def)
  note t = row_without_annotations [OF h1 h2 h3, of "[jeans_tops_row]"]
  have c1: "files (snd (create_dataset every_url exact empty_fs [tops_row, bare_row, jeans_tops_row]
        [''Jeans'', ''Tops''] ''train'')) ''clothing/labels/train/1.txt'' = Some []"
    using t [THEN conjunct1] by (simp add: example_paths)
  have c2: "files (snd (create_dataset every_url exact empty_fs [tops_row, bare_row, jeans_tops_row]
        [''Jeans'', ''Tops''] ''train'')) ''clothing/images/train/1.jpeg'' = Some ''JPEG of http://host/1''"
    using t [THEN conjunct2, THEN conjunct1] by (simp add: example_paths)
  have c3: "fst (create_dataset every_url exact empty_fs [tops_row, bare_row]
        [''Jeans'', ''Tops''] ''train'') = None"
    using t [THEN conjunct2, THEN conjunct2, THEN conjunct1] by simp
  have c4: "fst (create_dataset every_url exact empty_fs [tops_row, bare_row, jeans_tops_row]
        [''Jeans'', ''Tops''] ''train'')
     = fst (create_dataset every_url exact empty_fs [tops_row, jeans_tops_row]
        [''Jeans'', ''Tops''] ''train'')"
    using t [THEN conjunct2, THEN conjunct2, THEN conjunct2, THEN conjunct2] by simp
  from h1 h2 h3 c1 c2 c3 c4 show ?thesis
    by (intro conjI)
qed

text \<open>
  C8 (as stated, refuted). Two rows with two annotations each, every label in the
  category list and every annotation with two points, converted without an exception.
  In the first row the first annotation has two labels: the label file has three lines.
  In the second row the first annotation has no label: the label file has one line. The
  lines follow the labels, not the annotations.
\<close>

theorem two_annotations_counterexample:
  "length (annotation three_line_row) = 2
   \<and> fst (create_dataset every_url exact empty_fs [three_line_row] [''Jeans'', ''Tops''] ''train'')
       = None
   \<and> files (snd (create_dataset every_url exact empty_fs [three_line_row]
        [''Jeans'', ''Tops''] ''train'')) ''clothing/labels/train/0.txt''
      = Some (''1 0.5 0.5 1.0 1.0'' @ [newline] @ ''0 0.5 0.5 1.0 1.0'' @ [newline] @
              ''1 0.5 0.5 1.0 1.0'' @ [newline])
   \<and> count_list (''1 0.5 0.5 1.0 1.0'' @ [newline] @ ''0 0.5 0.5 1.0 1.0'' @ [newline] @
              ''1 0.5 0.5 1.0 1.0'' @ [newline]) newline = 3
   \<and> length (annotation one_line_row) = 2
   \<and> fst (create_dataset every_url exact empty_fs [one_line_row] [''Jeans'', ''Tops''] ''train'')
       = None
   \<and> files (snd (create_dataset every_url exact empty_fs [one_line_row]
        [''Jeans'', ''Tops''] ''train'')) ''clothing/labels/train/0.txt''
      = Some (''1 0.5 0.5 1.0 1.0'' @ [newline])
   \<and> count_list (''1 0.5 0.5 1.0 1.0'' @ [newline]) newline = 1"
proof -
  have l: "length (annotation three_line_row) = 2" "length (annotation one_line_row) = 2"
    by (simp_all add: three_line_row_def one_line_row_def)
  have t: "fst (create_dataset every_url exact empty_fs [three_line_row] [''Jeans'', ''Tops''] ''train'')
       = None"
    "files (snd (create_dataset every_url exact empty_fs [three_line_row]
        [''Jeans'', ''Tops''] ''train'')) ''clothing/labels/train/0.txt''
      = Some (''1 0.5 0.5 1.0 1.0'' @ [newline] @ ''0 0.5 0.5 1.0 1.0'' @ [newline] @
              ''1 0.5 0.5 1.0 1.0'' @ [newline])"
    by (simp_all add: create_dataset_def convert_row_fetched every_url_def three_line_row_rows
        example_paths write_file_def)
  have u: "fst (create_dataset every_url exact empty_fs [one_line_row] [''Jeans'', ''Tops''] ''train'')
       = None"
    "files (snd (create_dataset every_url exact empty_fs [one_line_row]
        [''Jeans'', ''Tops''] ''train'')) ''clothing/labels/train/0.txt''
      = Some (''1 0.5 0.5 1.0 1.0'' @ [newline])"
    by (simp_all add: create_dataset_def convert_row_fetched every_url_def one_line_row_rows
        example_paths write_file_def)
  have n: "count_list (''1 0.5 0.5 1.0 1.0'' @ [newline] @ ''0 0.5 0.5 1.0 1.0'' @ [newline] @
              ''1 0.5 0.5 1.0 1.0'' @ [newline]) newline = 3"
    "count_list (''1 0.5 0.5 1.0 1.0'' @ [newline]) newline = 1"
    by (simp_all add: newline_def)
  from l(1) t n(1) l(2) u n(2) show ?thesis
    by (intro conjI)
qed

text \<open>
  C8 (amended). A row with two annotations of exactly one label each, both labels in the
  category list and both annotations with two points, whose picture is fetched, after
  rows that were converted without an exception: its label file is the row of the first
  annotation followed by the row of the second, whatever the rows after it do. Each row
  is the category index and the four numbers, separated by single blanks and ended by a
  line break; with a printing of floats that prints no line break each is one line, and
  the file has two. (An annotation with another number of labels gets one row for each
  of its labels.)
\<close>

theorem row_with_two_annotations:
  assumes "fst (create_dataset urlopen fm fs pre categories dataset_type) = None"
    and "urlopen (content r) = Some img"
    and "annotation r = [a1, a2]"
    and "label a1 = [l1]" and "points a1 = [p1, q1]" and "index categories l1 = Some i1"
    and "label a2 = [l2]" and "points a2 = [p2, q2]" and "index categories l2 = Some i2"
    and "newline_free fm"
  shows "files (snd (create_dataset urlopen fm fs (pre @ r # post) categories dataset_type))
      (label_file_path dataset_type (length pre))
      = Some (format_bbox fm (make_bbox fm i1 p1 q1) @ format_bbox fm (make_bbox fm i2 p2 q2))
    \<and> fst (create_dataset urlopen fm fs (pre @ [r]) categories dataset_type) = None
    \<and> format_bbox fm (make_bbox fm i1 p1 q1) =
        str_nat i1 @ '' '' @ fl_repr fm (bbox_x_center (make_bbox fm i1 p1 q1)) @ '' '' @
        fl_repr fm (bbox_y_center (make_bbox fm i1 p1 q1)) @ '' '' @
        fl_repr fm (bbox_width (make_bbox fm i1 p1 q1)) @ '' '' @
        fl_repr fm (bbox_height (make_bbox fm i1 p1 q1)) @ [newline]
    \<and> format_bbox fm (make_bbox fm i2 p2 q2) =
        str_nat i2 @ '' '' @ fl_repr fm (bbox_x_center (make_bbox fm i2 p2 q2)) @ '' '' @
        fl_repr fm (bbox_y_center (make_bbox fm i2 p2 q2)) @ '' '' @
        fl_repr fm (bbox_width (make_bbox fm i2 p2 q2)) @ '' '' @
        fl_repr fm (bbox_height (make_bbox fm i2 p2 q2)) @ [newline]
    \<and> count_list (format_bbox fm (make_bbox fm i1 p1 q1)) newline = 1
    \<and> count_list (format_bbox fm (make_bbox fm i2 p2 q2)) newline = 1
    \<and> count_list (format_bbox fm (make_bbox fm i1 p1 q1) @
          format_bbox fm (make_bbox fm i2 p2 q2)) newline = 2"
proof -
  have w: "write_annotations fm categories (annotation r) [] =
      (None, format_bbox fm (make_bbox fm i1 p1 q1) @ format_bbox fm (make_bbox fm i2 p2 q2))"
    using assms(3-9) by simp
  have f1: "files (snd (create_dataset urlopen fm fs (pre @ r # post) categories dataset_type))
      (label_file_path dataset_type (length pre))
      = Some (format_bbox fm (make_bbox fm i1 p1 q1) @ format_bbox fm (make_bbox fm i2 p2 q2))"
    using row_in_batch(1) [OF assms(1,2), of post] w by simp
  have f2: "fst (create_dataset urlopen fm fs (pre @ [r]) categories dataset_type) = None"
    using row_in_batch(3) [OF assms(1,2)] w by simp
  have f3: "format_bbox fm (make_bbox fm i p q) =
        str_nat i @ '' '' @ fl_repr fm (bbox_x_center (make_bbox fm i p q)) @ '' '' @
        fl_repr fm (bbox_y_center (make_bbox fm i p q)) @ '' '' @
        fl_repr fm (bbox_width (make_bbox fm i p q)) @ '' '' @
        fl_repr fm (bbox_height (make_bbox fm i p q)) @ [newline]" for i p q
    by (simp add: format_bbox_def make_bbox_def Let_def)
  have f4: "count_list (format_bbox fm b) newline = 1" for b
    using assms(10) by (rule count_newline_format_bbox)
  have f5: "count_list (format_bbox fm (make_bbox fm i1 p1 q1) @
          format_bbox fm (make_bbox fm i2 p2 q2)) newline = 2"
    by (simp add: f4)
  from f1 f2 f3 [of i1 p1 q1] f3 [of i2 p2 q2] f4 [of "make_bbox fm i1 p1 q1"]
    f4 [of "make_bbox fm i2 p2 q2"] f5
  show ?thesis
    by (intro conjI)
qed

theorem row_with_two_annotations_witness:
  "fst (create_dataset every_url exact empty_fs [tops_row, bare_row] [''Jeans'', ''Tops''] ''train'') = None
   \<and> every_url (content jeans_tops_row) = Some ''JPEG of http://host/2''
   \<and> annotation jeans_tops_row
       = [box_annotation [''Jeans''] (0, 0) (1/2, 1), box_annotation [''Tops''] (1/2, 0) (1, 1)]
   \<and> index [''Jeans'', ''Tops''] ''Jeans'' = Some 0
   \<and> index [''Jeans'', ''Tops''] ''Tops'' = Some 1
   \<and> newline_free exact
   \<and> files (snd (create_dataset every_url exact empty_fs [tops_row, bare_row, jeans_tops_row]
        [''Jeans'', ''Tops''] ''train'')) ''clothing/labels/train/2.txt''
      = Some (''0 0.25 0.5 0.5 1.0'' @ [newline] @ ''1 0.75 0.5 0.5 1.0'' @ [newline])"
proof -
  have h1: "fst (create_dataset every_url exact empty_fs [tops_row, bare_row] [''Jeans'', ''Tops''] ''train'') = None"
    by (simp add: create_dataset_def convert_row_fetched every_url_def tops_row_rows bare_row_rows)
  have h2: "every_url (content jeans_tops_row) = Some ''JPEG of http://host/2''"
    by (simp add: every_url_def example_contents)
  have h3: "annotation jeans_tops_row
       = [box_annotation [''Jeans''] (0, 0) (1/2, 1), box_annotation [''Tops''] (1/2, 0) (1, 1)]"
    by (simp add: jeans_tops_row_def)
  have a1: "label (box_annotation [''Jeans''] (0, 0) (1/2, 1)) = [''Jeans'']"
    "points (box_annotation [''Jeans''] (0, 0) (1/2, 1)) = [\<lparr>pt_x = 0, pt_y = 0\<rparr>, \<lparr>pt_x = 1/2, pt_y = 1\<rparr>]"
    by (simp_all add: box_annotation_def)
  have a2: "label (box_annotation [''Tops''] (1/2, 0) (1, 1)) = [''Tops'']"
    "points (box_annotation [''Tops''] (1/2, 0) (1, 1)) = [\<lparr>pt_x = 1/2, pt_y = 0\<rparr>, \<lparr>pt_x = 1, pt_y = 1\<rparr>]"
    by (simp_all add: box_annotation_def)
  have i1: "index [''Jeans'', ''Tops''] ''Jeans'' = Some 0"
    and i2: "index [''Jeans'', ''Tops''] ''Tops'' = Some 1"
    by simp_all
  note t = row_with_two_annotations [OF h1 h2 h3 a1 i1 a2 i2 newline_free_exact, of "[]"]
  have "files (snd (create_dataset every_url exact empty_fs [tops_row, bare_row, jeans_tops_row]
        [''Jeans'', ''Tops''] ''train'')) ''clothing/labels/train/2.txt''
      = Some (''0 0.25 0.5 0.5 1.0'' @ [newline] @ ''1 0.75 0.5 0.5 1.0'' @ [newline])"
    using t [THEN conjunct1]
    by (simp add: example_paths make_bbox_def Let_def format_bbox_def short_decimal_examples
        str_nat_eval)
  with h1 h2 h3 i1 i2 newline_free_exact show ?thesis
    by (intro conjI)
qed

text \<open>
  C9 (as stated, refuted). For a batch whose only row has no annotation the category
  list is the empty list, not an exception, and the conversion with that list goes
  through: the picture is saved and the label file is written, empty.
\<close>

theorem no_annotations_counterexample:
  "annotation bare_row = []
   \<and> build_categories remdups [bare_row] = []
   \<and> create_dataset every_url exact empty_fs [bare_row] (build_categories remdups [bare_row])
        ''train'' =
      (None,
       \<lparr>dirs = {''clothing'', ''clothing/images'', ''clothing/images/train'',
                ''clothing/labels'', ''clothing/labels/train''},
        files = [''clothing/images/train/0.jpeg'' \<mapsto> ''JPEG of http://host/1'',
                 ''clothing/labels/train/0.txt'' \<mapsto> []]\<rparr>)"
proof -
  have a: "annotation bare_row = []"
    by (simp add: bare_row_def)
  have b: "build_categories remdups [bare_row] = []"
    by (simp add: build_categories_def a)
  have c: "create_dataset every_url exact empty_fs [bare_row] [] ''train'' =
      (None,
       \<lparr>dirs = {''clothing'', ''clothing/images'', ''clothing/images/train'',
                ''clothing/labels'', ''clothing/labels/train''},
        files = [''clothing/images/train/0.jpeg'' \<mapsto> ''JPEG of http://host/1'',
                 ''clothing/labels/train/0.txt'' \<mapsto> []]\<rparr>)"
    by (simp add: create_dataset_def convert_row_fetched every_url_def example_contents
      bare_row_rows example_paths write_file_def mkdir_def
      empty_fs_def images_path_def labels_path_def insert_commute)
  from a b c show ?thesis
    by simp
qed

text \<open>
  C9 (amended). When no annotation of any row has a label (in particular when there is no
  annotation at all) the category list is the empty list and nothing is raised. The
  conversion with that list proceeds: if every picture can be fetched it ends without an
  exception and every row has its label file, empty.
\<close>

theorem no_labels_gives_empty_categories:
  assumes "set_iteration set_order"
    and "\<forall>c \<in> set clothing. \<forall>a \<in> set (annotation c). label a = []"
  shows "build_categories set_order clothing = []
    \<and> ((\<forall>c \<in> set clothing. urlopen (content c) \<noteq> None) \<longrightarrow>
        fst (create_dataset urlopen fm fs clothing (build_categories set_order clothing)
          dataset_type) = None
      \<and> (\<forall>i < length clothing.
          files (snd (create_dataset urlopen fm fs clothing
            (build_categories set_order clothing) dataset_type)) (label_file_path dataset_type i)
          = Some []))"
proof -
  have "set (collect_labels [] clothing) = {}"
    using assms(2) by (simp add: set_collect_labels)
  then have "set (set_order (collect_labels [] clothing)) = {}"
    using assms(1) by (simp add: set_iteration_def)
  then have cats: "build_categories set_order clothing = []"
    by (simp add: build_categories_def)
  have w: "write_annotations fm [] (annotation c) [] = (None, [])" if "c \<in> set clothing" for c
    using that assms(2) by (simp add: write_annotations_no_labels)
  have conv: "fst (create_dataset urlopen fm fs clothing [] dataset_type) = None
      \<and> (\<forall>i < length clothing.
          files (snd (create_dataset urlopen fm fs clothing [] dataset_type))
            (label_file_path dataset_type i) = Some [])"
    if fetch: "\<forall>c \<in> set clothing. urlopen (content c) \<noteq> None"
  proof (intro conjI allI impI)
    show "fst (create_dataset urlopen fm fs clothing [] dataset_type) = None"
      using fetch w by (intro create_dataset_all_ok) simp
  next
    fix i assume i: "i < length clothing"
    let ?pre = "take i clothing" and ?r = "clothing ! i" and ?post = "drop (Suc i) clothing"
    have split: "clothing = ?pre @ ?r # ?post"
      using i by (rule id_take_nth_drop)
    have "\<forall>c \<in> set ?pre. c \<in> set clothing"
      by (auto dest: in_set_takeD)
    then have pre: "fst (create_dataset urlopen fm fs ?pre [] dataset_type) = None"
      using fetch w by (intro create_dataset_all_ok) simp
    from i have r: "?r \<in> set clothing" by simp
    with fetch obtain img where img: "urlopen (content ?r) = Some img" by auto
    from row_in_batch(1) [OF pre img, of ?post] w [OF r] i
    have "files (snd (create_dataset urlopen fm fs (?pre @ ?r # ?post) [] dataset_type))
        (label_file_path dataset_type i) = Some []"
      by simp
    with split show "files (snd (create_dataset urlopen fm fs clothing [] dataset_type))
        (label_file_path dataset_type i) = Some []"
      by simp
  qed
  from cats conv show ?thesis
    by simp
qed

theorem no_labels_gives_empty_categories_witness:
  "set_iteration remdups
   \<and> annotation bare_row = []
   \<and> every_url (content bare_row) = Some ''JPEG of http://host/1''
   \<and> build_categories remdups [bare_row, bare_row] = []
   \<and> fst (create_dataset every_url exact empty_fs [bare_row, bare_row]
        (build_categories remdups [bare_row, bare_row]) ''train'') = None
   \<and> files (snd (create_dataset every_url exact empty_fs [bare_row, bare_row]
        (build_categories remdups [bare_row, bare_row]) ''train'')) (label_file_path ''train'' 1)
      = Some []"
proof -
  have a: "annotation bare_row = []"
    by (simp add: bare_row_def)
  have u: "every_url (content bare_row) = Some ''JPEG of http://host/1''"
    by (simp add: every_url_def example_contents)
  have h2: "\<forall>c \<in> set [bare_row, bare_row]. \<forall>a \<in> set (annotation c). label a = []"
    by (simp add: a)
  have h3: "\<forall>c \<in> set [bare_row, bare_row]. every_url (content c) \<noteq> None"
    by (simp add: u)
  note t = no_labels_gives_empty_categories [OF set_iteration_remdups h2,
      of every_url exact empty_fs "''train''"]
  from t [THEN conjunct2] h3
  have "fst (create_dataset every_url exact empty_fs [bare_row, bare_row]
        (build_categories remdups [bare_row, bare_row]) ''train'') = None
      \<and> (\<forall>i < length [bare_row, bare_row].
          files (snd (create_dataset every_url exact empty_fs [bare_row, bare_row]
            (build_categories remdups [bare_row, bare_row]) ''train'')) (label_file_path ''train'' i)
          = Some [])"
    by blast
  then have c: "fst (create_dataset every_url exact empty_fs [bare_row, bare_row]
        (build_categories remdups [bare_row, bare_row]) ''train'') = None"
    "files (snd (create_dataset every_url exact empty_fs [bare_row, bare_row]
        (build_categories remdups [bare_row, bare_row]) ''train'')) (label_file_path ''train'' 1)
      = Some []"
    by simp_all
  from set_iteration_remdups a u t [THEN conjunct1] c show ?thesis
    by (intro conjI)
qed

text \<open>
  C10. An annotation with two points whose label array holds \<open>k\<close> strings, all in the
  category list, inside a row whose picture is fetched, after rows that were converted
  without an exception and after annotations of the row that raised nothing: the label
  file holds, after the rows of the annotations before and before the rows of the
  annotations after, one row per string of the array, in the order of the array. Each of
  these rows has the index of its string and the same four numbers, those of the two
  points of the annotation; they are \<open>k\<close> lines.
\<close>

theorem annotation_with_k_labels:
  assumes "fst (create_dataset urlopen fm fs pre categories dataset_type) = None"
    and "urlopen (content r) = Some img"
    and "annotation r = before @ a # after"
    and "fst (write_annotations fm categories before []) = None"
    and "points a = [p1, p2]"
    and "\<forall>l \<in> set (label a). l \<in> set categories"
    and "newline_free fm"
  shows "files (snd (create_dataset urlopen fm fs (pre @ r # post) categories dataset_type))
      (label_file_path dataset_type (length pre))
      = Some (snd (write_annotations fm categories before []) @
          concat (map (\<lambda>l. format_bbox fm (make_bbox fm (the (index categories l)) p1 p2))
            (label a)) @
          snd (write_annotations fm categories after []))
    \<and> count_list (concat (map (\<lambda>l. format_bbox fm
          (make_bbox fm (the (index categories l)) p1 p2)) (label a))) newline = length (label a)
    \<and> (\<forall>l \<in> set (label a).
          index categories l = Some (the (index categories l))
        \<and> make_bbox fm (the (index categories l)) p1 p2 =
            (make_bbox fm 0 p1 p2)\<lparr>class_index := the (index categories l)\<rparr>)"
proof -
  let ?rows = "concat (map (\<lambda>l. format_bbox fm (make_bbox fm (the (index categories l)) p1 p2))
      (label a))"
  obtain t where b: "write_annotations fm categories before [] = (None, t)"
    using assms(4) by (cases "write_annotations fm categories before []") simp
  have "write_annotations fm categories (a # after) t =
      write_annotations fm categories after (t @ ?rows)"
    using write_labels_known [OF assms(5,6), of fm t] by simp
  also have "snd \<dots> = (t @ ?rows) @ snd (write_annotations fm categories after [])"
    using write_annotations_out [of fm categories after "t @ ?rows"] by simp
  finally have "snd (write_annotations fm categories (annotation r) []) =
      t @ ?rows @ snd (write_annotations fm categories after [])"
    using b by (simp add: assms(3) write_annotations_append)
  with row_in_batch(1) [OF assms(1,2), of post] b
  have f1: "files (snd (create_dataset urlopen fm fs (pre @ r # post) categories dataset_type))
      (label_file_path dataset_type (length pre))
      = Some (snd (write_annotations fm categories before []) @ ?rows @
          snd (write_annotations fm categories after []))"
    by simp
  have f2: "count_list ?rows newline = length (label a)"
    using assms(7) by (rule count_newline_rows)
  have f3: "\<forall>l \<in> set (label a).
          index categories l = Some (the (index categories l))
        \<and> make_bbox fm (the (index categories l)) p1 p2 =
            (make_bbox fm 0 p1 p2)\<lparr>class_index := the (index categories l)\<rparr>"
    using assms(6) index_None_iff [of categories] by (auto simp: make_bbox_def Let_def)
  from f1 f2 f3 show ?thesis
    by (intro conjI)
qed

theorem annotation_with_k_labels_witness:
  "fst (create_dataset every_url exact empty_fs [tops_row] [''Jeans'', ''Tops''] ''train'') = None
   \<and> every_url (content two_label_row) = Some ''JPEG of http://host/5''
   \<and> annotation two_label_row = [] @ box_annotation [''Tops'', ''Jeans''] (0, 0) (1, 1) # []
   \<and> points (box_annotation [''Tops'', ''Jeans''] (0, 0) (1, 1))
       = [\<lparr>pt_x = 0, pt_y = 0\<rparr>, \<lparr>pt_x = 1, pt_y = 1\<rparr>]
   \<and> label (box_annotation [''Tops'', ''Jeans''] (0, 0) (1, 1)) = [''Tops'', ''Jeans'']
   \<and> newline_free exact
   \<and> files (snd (create_dataset every_url exact empty_fs [tops_row, two_label_row]
        [''Jeans'', ''Tops''] ''train'')) ''clothing/labels/train/1.txt''
      = Some (''1 0.5 0.5 1.0 1.0'' @ [newline] @ ''0 0.5 0.5 1.0 1.0'' @ [newline])"
proof -
  have h1: "fst (create_dataset every_url exact empty_fs [tops_row] [''Jeans'', ''Tops''] ''train'') = None"
    by (simp add: one_row_converted)
  have h2: "every_url (content two_label_row) = Some ''JPEG of http://host/5''"
    by (simp add: every_url_def example_contents_more)
  have h3: "annotation two_label_row = [] @ box_annotation [''Tops'', ''Jeans''] (0, 0) (1, 1) # []"
    by (simp add: two_label_row_def)
  have h4: "fst (write_annotations exact [''Jeans'', ''Tops''] [] []) = None"
    by simp
  have h5: "points (box_annotation [''Tops'', ''Jeans''] (0, 0) (1, 1))
       = [\<lparr>pt_x = 0, pt_y = 0\<rparr>, \<lparr>pt_x = 1, pt_y = 1\<rparr>]"
    and l: "label (box_annotation [''Tops'', ''Jeans''] (0, 0) (1, 1)) = [''Tops'', ''Jeans'']"
    by (simp_all add: box_annotation_def)
  have h6: "\<forall>l \<in> set (label (box_annotation [''Tops'', ''Jeans''] (0, 0) (1, 1))).
      l \<in> set [''Jeans'', ''Tops'']"
    by (simp add: l)
  note t = annotation_with_k_labels [OF h1 h2 h3 h4 h5 h6 newline_free_exact, of "[]"]
  have "files (snd (create_dataset every_url exact empty_fs [tops_row, two_label_row]
        [''Jeans'', ''Tops''] ''train'')) ''clothing/labels/train/1.txt''
      = Some (''1 0.5 0.5 1.0 1.0'' @ [newline] @ ''0 0.5 0.5 1.0 1.0'' @ [newline])"
    using t [THEN conjunct1]
    by (simp add: l example_paths make_bbox_def Let_def format_bbox_def short_decimal_examples
        str_nat_eval)
  with h1 h2 h3 h5 l newline_free_exact show ?thesis
    by (intro conjI)
qed

end
